theory Spec2Isabelle
  imports Main "HOL-Library.Word"
begin

unbundle bit_operations_syntax

section \<open>Managed strings\<close>

text \<open>
  A \<^verbatim>\<open>stringer_t *\<close> is either the NULL pointer or a buffer of bytes with a length.
  Modelled from the spec: the managed-string helpers \<^verbatim>\<open>st_empty\<close>, \<^verbatim>\<open>st_length_get\<close>,
  \<^verbatim>\<open>st_char_get\<close> and \<^verbatim>\<open>st_search_chr\<close> are declared outside the two source files; a
  string is empty when it is NULL or has no bytes ("NULL-safe", "empty required strings"),
  the length of NULL is zero, and the search reports whether the byte occurs.
\<close>

type_synonym stringer = "string option"

definition st_empty :: "stringer \<Rightarrow> bool" where
  "st_empty s = (case s of None \<Rightarrow> True | Some b \<Rightarrow> b = [])"

definition st_length_get :: "stringer \<Rightarrow> nat" where
  "st_length_get s = (case s of None \<Rightarrow> 0 | Some b \<Rightarrow> length b)"

definition st_char_get :: "stringer \<Rightarrow> string" where
  "st_char_get s = (case s of None \<Rightarrow> [] | Some b \<Rightarrow> b)"

definition st_search_chr :: "stringer \<Rightarrow> char \<Rightarrow> bool" where
  "st_search_chr s c = (case s of None \<Rightarrow> False | Some b \<Rightarrow> c \<in> set b)"


section \<open>objects/auth/datatier.c\<close>

subsection \<open>Constants, codecs and prepared statements\<close>

text \<open>
  The three STACIE macros are defined outside the source files and are taken as
  parameters.
\<close>

record stacie =
  STACIE_SALT_LENGTH :: nat
  STACIE_TOKEN_LENGTH :: nat
  STACIE_KEY_ROUNDS_MAX :: nat

text \<open>
  The codecs are external collaborators: each returns NULL (\<open>None\<close>) when it cannot
  decode its input.
\<close>

record codec =
  base64_decode_mod :: "string \<Rightarrow> stringer"
  hex_decode_st :: "string \<Rightarrow> stringer"

text \<open>
  One row of the credential result set, read through the accessors the source uses:
  column 0 with \<^verbatim>\<open>res_field_uint64\<close>, column 1 with \<^verbatim>\<open>res_field_string\<close> (NULL when the
  string cannot be produced), columns 2, 3 and 5 as a block with a length (length zero for
  SQL NULL), column 4 with \<^verbatim>\<open>res_field_uint32\<close> and column 6 with \<^verbatim>\<open>res_field_int8\<close>.
\<close>

record row =
  field_usernum :: "64 word"
  field_userid :: stringer
  field_salt :: string
  field_verification :: string
  field_bonus :: "32 word"
  field_legacy :: string
  field_locked :: "8 word"

type_synonym table = "row list"

definition res_row_count :: "table \<Rightarrow> nat" where
  "res_row_count query = length query"

definition res_row_next :: "table \<Rightarrow> row option" where
  "res_row_next query = (case query of [] \<Rightarrow> None | r # _ \<Rightarrow> Some r)"

text \<open>The bound parameters of the update statement, in the order of the source.\<close>

record legacy_update =
  bind_salt :: string
  bind_verification :: string
  bind_bonus :: "32 word"
  bind_usernum :: "64 word"
  bind_legacy :: string

text \<open>
  The prepared statements run against a database of type \<open>'db\<close>. A query yields a
  table or NULL; the update yields the number of affected rows (or a negative number on
  error) and the database after it.
\<close>

record 'db statements =
  auth_get_by_userid :: "'db \<Rightarrow> string \<Rightarrow> table option"
  auth_get_by_address :: "'db \<Rightarrow> string \<Rightarrow> table option"
  auth_update_legacy_to_stacie :: "'db \<Rightarrow> legacy_update \<Rightarrow> int \<times> 'db"

text \<open>Every statement sent to the database is recorded, in order.\<close>

datatype stmt_call =
    Get_by_userid string
  | Get_by_address string
  | Update_legacy_to_stacie legacy_update

record 'db sql =
  database :: "'db"
  issued :: "stmt_call list"

definition stmt_exec_affected_legacy ::
  "'db statements \<Rightarrow> legacy_update \<Rightarrow> 'db sql \<Rightarrow> int \<times> 'db sql" where
  "stmt_exec_affected_legacy st p s =
     (let (affected, d) = auth_update_legacy_to_stacie st (database s) p
      in (affected, \<lparr>database = d, issued = issued s @ [Update_legacy_to_stacie p]\<rparr>))"

definition stmt_get_result_userid ::
  "'db statements \<Rightarrow> string \<Rightarrow> 'db sql \<Rightarrow> table option \<times> 'db sql" where
  "stmt_get_result_userid st p s =
     (auth_get_by_userid st (database s) p, s\<lparr>issued := issued s @ [Get_by_userid p]\<rparr>)"

definition stmt_get_result_address ::
  "'db statements \<Rightarrow> string \<Rightarrow> 'db sql \<Rightarrow> table option \<times> 'db sql" where
  "stmt_get_result_address st p s =
     (auth_get_by_address st (database s) p, s\<lparr>issued := issued s @ [Get_by_address p]\<rparr>)"


subsection \<open>auth_data_update_legacy\<close>

definition auth_data_update_legacy ::
  "stacie \<Rightarrow> 'db statements \<Rightarrow> 64 word \<Rightarrow> stringer \<Rightarrow> stringer \<Rightarrow> stringer \<Rightarrow> 32 word
     \<Rightarrow> 'db sql \<Rightarrow> int \<times> 'db sql" where
  "auth_data_update_legacy k st usernum legacy salt verification bonus s =
     (if st_empty legacy \<or> st_length_get legacy \<noteq> 128 then (- 1, s)
      else if st_empty salt \<or> st_length_get salt \<noteq> 171 then (- 1, s)
      else if st_empty verification \<or> st_length_get verification \<noteq> 86 then (- 1, s)
      else if unat bonus > STACIE_KEY_ROUNDS_MAX k \<or> usernum = 0 then (- 1, s)
      else
        (let parameters = \<lparr>bind_salt = st_char_get salt,
                             bind_verification = st_char_get verification,
                             bind_bonus = bonus,
                             bind_usernum = usernum,
                             bind_legacy = st_char_get legacy\<rparr>;
             (affected, s') = stmt_exec_affected_legacy st parameters s
         in if affected \<noteq> 1 then (- 1, s') else (0, s')))"


subsection \<open>auth_data_fetch\<close>

text \<open>The fields of \<^verbatim>\<open>auth_t\<close> that the fetch reads or writes.\<close>

record auth =
  usernum :: "64 word"
  username :: stringer
  seasoning_salt :: stringer
  seasoning_bonus :: "32 word"
  tokens_verification :: stringer
  legacy_token :: stringer
  status_locked :: "8 word"

text \<open>
  Lines 250 to 263: the check of the stored credentials that ends the fetch.
\<close>

definition auth_data_fetch_check :: "stacie \<Rightarrow> auth \<Rightarrow> int" where
  "auth_data_fetch_check k a =
     (if st_empty (legacy_token a) \<and>
         (st_empty (seasoning_salt a) \<or> st_length_get (seasoning_salt a) \<noteq> STACIE_SALT_LENGTH k \<or>
          st_empty (tokens_verification a) \<or>
          st_length_get (tokens_verification a) \<noteq> STACIE_TOKEN_LENGTH k \<or>
          unat (seasoning_bonus a) > STACIE_KEY_ROUNDS_MAX k)
      then - 1
      else if \<not> st_empty (legacy_token a) \<and>
         (st_length_get (legacy_token a) \<noteq> 64 \<or> \<not> st_empty (seasoning_salt a) \<or>
          \<not> st_empty (tokens_verification a) \<or>
          unat (seasoning_bonus a) > STACIE_KEY_ROUNDS_MAX k)
      then - 1
      else 0)"

text \<open>
  Lines 185 to 263: what the fetch does with the table that one of the two lookups
  returned. The record is updated field by field, so a failure part of the way leaves
  the fields written so far.
\<close>

definition auth_data_fetch_store :: "stacie \<Rightarrow> codec \<Rightarrow> auth \<Rightarrow> table \<Rightarrow> int \<times> auth" where
  "auth_data_fetch_store k c a query =
     (if res_row_count query \<noteq> 1 then (- 1, a)
      else case res_row_next query of
        None \<Rightarrow> (- 1, a)
      | Some r \<Rightarrow>
          (let a1 = a\<lparr>usernum := field_usernum r\<rparr> in
           if usernum a1 = 0 then (- 1, a1)
           else case field_userid r of
             None \<Rightarrow> (- 1, a1)
           | Some userid \<Rightarrow>
               (let a2 = a1\<lparr>username := Some userid\<rparr>;
                    a3 = (if length (field_salt r) \<noteq> 0
                          then a2\<lparr>seasoning_salt := base64_decode_mod c (field_salt r)\<rparr>
                          else a2);
                    a4 = (if length (field_verification r) \<noteq> 0
                          then a3\<lparr>tokens_verification :=
                                    base64_decode_mod c (field_verification r)\<rparr>
                          else a3);
                    a5 = a4\<lparr>seasoning_bonus := field_bonus r\<rparr>;
                    a6 = (if length (field_legacy r) \<noteq> 0
                          then a5\<lparr>legacy_token := hex_decode_st c (field_legacy r)\<rparr>
                          else a5);
                    a7 = a6\<lparr>status_locked := field_locked r\<rparr>
                in (auth_data_fetch_check k a7, a7))))"

text \<open>
  Lines 149 to 183: the two lookups. The result is either the value the function
  returns at once (\<open>Inl\<close>) or the table whose rows are read next (\<open>Inr\<close>).
\<close>

definition auth_data_fetch_lookup ::
  "'db statements \<Rightarrow> auth \<Rightarrow> 'db sql \<Rightarrow> (int + table) \<times> 'db sql" where
  "auth_data_fetch_lookup st a s =
     (let parameters = st_char_get (username a);
          (query, s1) = stmt_get_result_userid st parameters s
      in case query of
           None \<Rightarrow> (Inl (- 1), s1)
         | Some q \<Rightarrow>
             if res_row_count q = 0 then
               (if \<not> st_search_chr (username a) CHR ''@'' then (Inl 1, s1)
                else
                  (let (query2, s2) = stmt_get_result_address st parameters s1
                   in case query2 of
                        None \<Rightarrow> (Inl (- 1), s2)
                      | Some q2 \<Rightarrow>
                          if res_row_count q2 = 0 then (Inl 1, s2) else (Inr q2, s2)))
             else (Inr q, s1))"

text \<open>
  The whole function. The argument is the \<^verbatim>\<open>auth_t *\<close> (\<open>None\<close> for NULL); the result
  is the return value, the record as the caller finds it, and the database log.
\<close>

definition auth_data_fetch ::
  "stacie \<Rightarrow> codec \<Rightarrow> 'db statements \<Rightarrow> auth option \<Rightarrow> 'db sql
     \<Rightarrow> int \<times> auth option \<times> 'db sql" where
  "auth_data_fetch k c st auth_ptr s =
     (case auth_ptr of
        None \<Rightarrow> (- 1, None, s)
      | Some a \<Rightarrow>
          if st_empty (username a) then (- 1, Some a, s)
          else
            (case auth_data_fetch_lookup st a s of
               (Inl res, s') \<Rightarrow> (res, Some a, s')
             | (Inr query, s') \<Rightarrow>
                 (let (res, a') = auth_data_fetch_store k c a query
                  in (res, Some a', s'))))"

text \<open>The two credential forms of the specification, read off the record.\<close>

definition legacy_form :: "auth \<Rightarrow> bool" where
  "legacy_form a =
     (\<not> st_empty (legacy_token a) \<and> st_empty (seasoning_salt a) \<and>
      st_empty (tokens_verification a))"

definition stacie_form :: "stacie \<Rightarrow> auth \<Rightarrow> bool" where
  "stacie_form k a =
     (st_empty (legacy_token a) \<and>
      \<not> st_empty (seasoning_salt a) \<and>
      st_length_get (seasoning_salt a) = STACIE_SALT_LENGTH k \<and>
      \<not> st_empty (tokens_verification a) \<and>
      st_length_get (tokens_verification a) = STACIE_TOKEN_LENGTH k \<and>
      unat (seasoning_bonus a) \<le> STACIE_KEY_ROUNDS_MAX k)"


subsection \<open>A concrete instance\<close>

text \<open>
  A small database and the two codecs, used to run the functions above on concrete
  inputs. Modelled from the spec: the hex and base64 codecs are external collaborators;
  two hexadecimal digits give one byte (a 128-character field gives 64 bytes) and four
  characters of the URL-safe base64 alphabet give three bytes, without padding (171
  characters give 128 bytes, 86 give 64).
\<close>

definition hex_value :: "char \<Rightarrow> nat option" where
  "hex_value c =
     (let n = (of_char c :: nat) in
      if 48 \<le> n \<and> n \<le> 57 then Some (n - 48)
      else if 97 \<le> n \<and> n \<le> 102 then Some (n - 87)
      else if 65 \<le> n \<and> n \<le> 70 then Some (n - 55)
      else None)"

fun hex_pairs :: "string \<Rightarrow> stringer" where
  "hex_pairs [] = Some []"
| "hex_pairs [x] = None"
| "hex_pairs (x # y # r) =
     (case (hex_value x, hex_value y, hex_pairs r) of
        (Some a, Some b, Some t) \<Rightarrow> Some (char_of (16 * a + b) # t)
      | _ \<Rightarrow> None)"

definition b64_value :: "char \<Rightarrow> nat option" where
  "b64_value c =
     (let n = (of_char c :: nat) in
      if 65 \<le> n \<and> n \<le> 90 then Some (n - 65)
      else if 97 \<le> n \<and> n \<le> 122 then Some (n - 71)
      else if 48 \<le> n \<and> n \<le> 57 then Some (n + 4)
      else if n = 45 then Some 62
      else if n = 95 then Some 63
      else None)"

fun b64_values :: "string \<Rightarrow> nat list option" where
  "b64_values [] = Some []"
| "b64_values (x # r) =
     (case (b64_value x, b64_values r) of
        (Some v, Some vs) \<Rightarrow> Some (v # vs)
      | _ \<Rightarrow> None)"

fun b64_bytes :: "nat list \<Rightarrow> string" where
  "b64_bytes (a # b # c # d # r) =
     char_of (a * 4 + b div 16) # char_of ((b mod 16) * 16 + c div 4) #
     char_of ((c mod 4) * 64 + d) # b64_bytes r"
| "b64_bytes [a, b, c] = [char_of (a * 4 + b div 16), char_of ((b mod 16) * 16 + c div 4)]"
| "b64_bytes [a, b] = [char_of (a * 4 + b div 16)]"
| "b64_bytes _ = []"

definition b64_mod :: "string \<Rightarrow> stringer" where
  "b64_mod s = (case b64_values s of None \<Rightarrow> None | Some vs \<Rightarrow> Some (b64_bytes vs))"

definition example_codec :: codec where
  "example_codec = \<lparr>base64_decode_mod = b64_mod, hex_decode_st = hex_pairs\<rparr>"

definition example_stacie :: stacie where
  "example_stacie =
     \<lparr>STACIE_SALT_LENGTH = 128, STACIE_TOKEN_LENGTH = 64, STACIE_KEY_ROUNDS_MAX = 16777216\<rparr>"

record example_db =
  users :: "row list"
  mailboxes :: "(string \<times> row) list"

definition example_migrate :: "legacy_update \<Rightarrow> row \<Rightarrow> bool" where
  "example_migrate p r = (field_usernum r = bind_usernum p \<and> field_legacy r = bind_legacy p)"

definition example_statements :: "example_db statements" where
  "example_statements =
     \<lparr>auth_get_by_userid = (\<lambda>d u. Some (filter (\<lambda>r. field_userid r = Some u) (users d))),
      auth_get_by_address = (\<lambda>d u. Some (map snd (filter (\<lambda>m. fst m = u) (mailboxes d)))),
      auth_update_legacy_to_stacie = (\<lambda>d p.
        (int (length (filter (example_migrate p) (users d))),
         d\<lparr>users := map (\<lambda>r. if example_migrate p r
                                then r\<lparr>field_salt := bind_salt p,
                                       field_verification := bind_verification p,
                                       field_bonus := bind_bonus p,
                                       field_legacy := []\<rparr>
                                else r) (users d)\<rparr>))\<rparr>"

definition legacy_row :: row where
  "legacy_row =
     \<lparr>field_usernum = 7, field_userid = Some ''alice'', field_salt = [],
      field_verification = [], field_bonus = 0,
      field_legacy = replicate 128 CHR ''a'', field_locked = 0\<rparr>"

definition stacie_row :: row where
  "stacie_row =
     \<lparr>field_usernum = 8, field_userid = Some ''bob'', field_salt = replicate 171 CHR ''Q'',
      field_verification = replicate 86 CHR ''z'', field_bonus = 5,
      field_legacy = [], field_locked = 0\<rparr>"

definition example_sql :: "example_db sql" where
  "example_sql =
     \<lparr>database = \<lparr>users = [legacy_row, stacie_row],
                   mailboxes = [(''bob@example.org'', stacie_row)]\<rparr>,
      issued = []\<rparr>"

definition blank_auth :: "string \<Rightarrow> auth" where
  "blank_auth name =
     \<lparr>usernum = 0, username = Some name, seasoning_salt = None, seasoning_bonus = 0,
      tokens_verification = None, legacy_token = None, status_locked = 0\<rparr>"


section \<open>The file system and the metadata store\<close>

text \<open>
  The mail functions act on two resources, the file system and the database, through
  system calls and collaborators that live outside the source files. Both resources are
  one state, the \<open>world\<close>, that every call takes and returns. A script of outcomes
  decides which calls fail: each fallible call consumes the head of the script, and an
  exhausted script means success. Every call is appended to \<open>calls\<close> with its result.
\<close>

type_synonym path = string

datatype outcome = Succeed | Fail | Partial nat

datatype errno = ENOENT | EEXIST | EOTHER

record disk_file =
  contents :: string
  synced :: bool

text \<open>Modelled from the spec: the columns of a message row (section 3, MessageRecord).\<close>

record message_row =
  owner_id :: "64 word"
  folder_id :: "64 word"
  status_flags :: "32 word"
  byte_size :: "32 word"
  spam_signature_id :: "64 word"
  spam_key_id :: "64 word"

type_synonym messages = "64 word \<rightharpoonup> message_row"

datatype call =
    Message_path "64 word" stringer bool
  | Create_directory "64 word" bool
  | Open_create path "errno option"
  | Open_read path "errno option"
  | Write int int
  | Fsync int int
  | Close int int
  | Unlink path
  | Link path path "errno option"
  | Tran_start int
  | Tran_commit int int
  | Tran_rollback int
  | Insert_message int "64 word"
  | Insert_duplicate int "64 word"
  | Update_folder int "64 word" int

record world =
  files :: "path \<rightharpoonup> disk_file"
  directories :: "path set"
  descriptors :: "int \<rightharpoonup> path"
  committed :: messages
  transactions :: "int \<rightharpoonup> messages"
  next_message :: "64 word"
  fresh :: nat
  script :: "outcome list"
  calls :: "call list"

definition next_outcome :: "world \<Rightarrow> outcome \<times> world" where
  "next_outcome w = (case script w of [] \<Rightarrow> (Succeed, w) | oc # r \<Rightarrow> (oc, w\<lparr>script := r\<rparr>))"

definition log_call :: "call \<Rightarrow> world \<Rightarrow> world" where
  "log_call c w = w\<lparr>calls := calls w @ [c]\<rparr>"

text \<open>
  The constants, the layout of the header in memory, the path scheme and the two payload
  transformations are defined outside the source files and are taken as parameters.
\<close>

record message_header =
  magic1 :: "32 word"
  magic2 :: "32 word"
  reserved :: "32 word"
  flags :: "8 word"

record magma =
  FMESSAGE_MAGIC_1 :: "32 word"
  FMESSAGE_MAGIC_2 :: "32 word"
  FMESSAGE_OPT_COMPRESSED :: "8 word"
  FMESSAGE_OPT_ENCRYPTED :: "8 word"
  MAIL_STATUS_ENCRYPTED :: "32 word"
  header_image :: "message_header \<Rightarrow> string"
  message_path :: "64 word \<Rightarrow> stringer \<Rightarrow> path"
  directory_of :: "path \<Rightarrow> path"
  prime_message_encrypt :: "stringer \<Rightarrow> string \<Rightarrow> stringer"
  compress_lzo :: "stringer \<Rightarrow> stringer"

subsection \<open>Paths and system calls\<close>

text \<open>
  Modelled from the spec: \<^verbatim>\<open>mail_message_path\<close> and \<^verbatim>\<open>mail_create_directory\<close> (section 4.1,
  PathNamer) are not in the source files. The path is a function of the message number
  and the server, or NULL when it cannot be built; creating the directory adds the
  directory that contains the path and is idempotent.
\<close>

definition mail_message_path ::
  "magma \<Rightarrow> 64 word \<Rightarrow> stringer \<Rightarrow> world \<Rightarrow> path option \<times> world" where
  "mail_message_path g num server w =
     (let (oc, w1) = next_outcome w in
      if oc \<noteq> Succeed then (None, log_call (Message_path num server False) w1)
      else (Some (message_path g num server), log_call (Message_path num server True) w1))"

definition mail_create_directory ::
  "magma \<Rightarrow> 64 word \<Rightarrow> stringer \<Rightarrow> world \<Rightarrow> bool \<times> world" where
  "mail_create_directory g num server w =
     (let (oc, w1) = next_outcome w in
      if oc \<noteq> Succeed then (False, log_call (Create_directory num False) w1)
      else (True, log_call (Create_directory num True)
                    (w1\<lparr>directories :=
                          insert (directory_of g (message_path g num server)) (directories w1)\<rparr>)))"

text \<open>
  \<^verbatim>\<open>open\<close> with \<^verbatim>\<open>O_CREAT | O_WRONLY | O_TRUNC | O_SYNC\<close>: it fails with \<open>ENOENT\<close> when the
  directory of the path is missing and with another error when the script says so;
  otherwise the file exists and is empty afterwards.
\<close>

definition open_create :: "magma \<Rightarrow> path \<Rightarrow> world \<Rightarrow> int \<times> world" where
  "open_create g p w =
     (let (oc, w1) = next_outcome w in
      if oc \<noteq> Succeed then (- 1, log_call (Open_create p (Some EOTHER)) w1)
      else if directory_of g p \<notin> directories w1 then (- 1, log_call (Open_create p (Some ENOENT)) w1)
      else
        (let fd = int (fresh w1)
         in (fd, log_call (Open_create p None)
                   (w1\<lparr>files := (files w1)(p \<mapsto> \<lparr>contents = [], synced = False\<rparr>),
                       descriptors := (descriptors w1)(fd \<mapsto> p),
                       fresh := Suc (fresh w1)\<rparr>))))"

text \<open>\<^verbatim>\<open>open\<close> with \<^verbatim>\<open>O_RDONLY\<close>.\<close>

definition open_read :: "path \<Rightarrow> world \<Rightarrow> int \<times> world" where
  "open_read p w =
     (let (oc, w1) = next_outcome w in
      if oc \<noteq> Succeed then (- 1, log_call (Open_read p (Some EOTHER)) w1)
      else if files w1 p = None then (- 1, log_call (Open_read p (Some ENOENT)) w1)
      else
        (let fd = int (fresh w1)
         in (fd, log_call (Open_read p None)
                   (w1\<lparr>descriptors := (descriptors w1)(fd \<mapsto> p), fresh := Suc (fresh w1)\<rparr>))))"

definition append_file :: "path \<Rightarrow> string \<Rightarrow> world \<Rightarrow> world" where
  "append_file p buf w =
     (case files w p of
        None \<Rightarrow> w
      | Some f \<Rightarrow> w\<lparr>files := (files w)(p \<mapsto> \<lparr>contents = contents f @ buf, synced = False\<rparr>)\<rparr>)"

text \<open>
  \<^verbatim>\<open>write\<close> returns the number of bytes it wrote, which may be less than asked for
  (\<open>Partial\<close>), or -1.
\<close>

definition write_fd :: "int \<Rightarrow> string \<Rightarrow> world \<Rightarrow> int \<times> world" where
  "write_fd fd buf w =
     (let (oc, w1) = next_outcome w in
      case descriptors w1 fd of
        None \<Rightarrow> (- 1, log_call (Write fd (- 1)) w1)
      | Some p \<Rightarrow>
          (case oc of
             Fail \<Rightarrow> (- 1, log_call (Write fd (- 1)) w1)
           | Succeed \<Rightarrow> (int (length buf), log_call (Write fd (int (length buf))) (append_file p buf w1))
           | Partial n \<Rightarrow>
               (int (min n (length buf)),
                log_call (Write fd (int (min n (length buf)))) (append_file p (take n buf) w1))))"

definition fsync_fd :: "int \<Rightarrow> world \<Rightarrow> int \<times> world" where
  "fsync_fd fd w =
     (let (oc, w1) = next_outcome w in
      case descriptors w1 fd of
        None \<Rightarrow> (- 1, log_call (Fsync fd (- 1)) w1)
      | Some p \<Rightarrow>
          if oc \<noteq> Succeed then (- 1, log_call (Fsync fd (- 1)) w1)
          else (0, log_call (Fsync fd 0)
                     (w1\<lparr>files := (case files w1 p of
                                      None \<Rightarrow> files w1
                                    | Some f \<Rightarrow> (files w1)(p \<mapsto> f\<lparr>synced := True\<rparr>))\<rparr>)))"

text \<open>\<^verbatim>\<open>close\<close> releases the descriptor whether or not it reports an error.\<close>

definition close_fd :: "int \<Rightarrow> world \<Rightarrow> int \<times> world" where
  "close_fd fd w =
     (let (oc, w1) = next_outcome w;
          w2 = w1\<lparr>descriptors := (descriptors w1)(fd := None)\<rparr>
      in if oc \<noteq> Succeed \<or> descriptors w1 fd = None then (- 1, log_call (Close fd (- 1)) w2)
         else (0, log_call (Close fd 0) w2))"

text \<open>
  The source ignores the result of \<^verbatim>\<open>unlink\<close>; the call is modelled as removing the name.
\<close>

definition unlink_path :: "path \<Rightarrow> world \<Rightarrow> world" where
  "unlink_path p w = log_call (Unlink p) (w\<lparr>files := (files w)(p := None)\<rparr>)"

definition link_path :: "magma \<Rightarrow> path \<Rightarrow> path \<Rightarrow> world \<Rightarrow> int \<times> world" where
  "link_path g old new w =
     (let (oc, w1) = next_outcome w in
      if oc \<noteq> Succeed then (- 1, log_call (Link old new (Some EOTHER)) w1)
      else case files w1 old of
        None \<Rightarrow> (- 1, log_call (Link old new (Some ENOENT)) w1)
      | Some f \<Rightarrow>
          if directory_of g new \<notin> directories w1 then (- 1, log_call (Link old new (Some ENOENT)) w1)
          else if files w1 new \<noteq> None then (- 1, log_call (Link old new (Some EEXIST)) w1)
          else (0, log_call (Link old new None) (w1\<lparr>files := (files w1)(new \<mapsto> f)\<rparr>)))"

subsection \<open>Transactions and message rows\<close>

text \<open>
  Modelled from the spec: the transaction coordinator and the message statements
  (section 6) are not in the source files. \<^verbatim>\<open>tran_start\<close> returns a handle or a negative
  number; statements run inside a transaction act on its working copy of the rows;
  \<^verbatim>\<open>tran_commit\<close> returns 0 and makes the working copy the committed rows, or returns
  non-zero and leaves the committed rows as they were; \<^verbatim>\<open>tran_rollback\<close> discards the
  working copy. An insert returns the new message number, or 0 on failure; the folder
  update returns the number of rows it changed, or -1 on error.
\<close>

definition tran_start :: "world \<Rightarrow> int \<times> world" where
  "tran_start w =
     (let (oc, w1) = next_outcome w in
      if oc \<noteq> Succeed then (- 1, log_call (Tran_start (- 1)) w1)
      else
        (let t = int (fresh w1)
         in (t, log_call (Tran_start t)
                  (w1\<lparr>transactions := (transactions w1)(t \<mapsto> committed w1),
                      fresh := Suc (fresh w1)\<rparr>))))"

definition tran_rollback :: "int \<Rightarrow> world \<Rightarrow> world" where
  "tran_rollback t w = log_call (Tran_rollback t) (w\<lparr>transactions := (transactions w)(t := None)\<rparr>)"

definition tran_commit :: "int \<Rightarrow> world \<Rightarrow> int \<times> world" where
  "tran_commit t w =
     (let (oc, w1) = next_outcome w;
          w2 = w1\<lparr>transactions := (transactions w1)(t := None)\<rparr>
      in case transactions w1 t of
           None \<Rightarrow> (- 1, log_call (Tran_commit t (- 1)) w2)
         | Some rows \<Rightarrow>
             if oc \<noteq> Succeed then (- 1, log_call (Tran_commit t (- 1)) w2)
             else (0, log_call (Tran_commit t 0) (w2\<lparr>committed := rows\<rparr>)))"

definition insert_row :: "(call) \<Rightarrow> message_row \<Rightarrow> int \<Rightarrow> world \<Rightarrow> 64 word \<times> world" where
  "insert_row failed r t w =
     (let (oc, w1) = next_outcome w in
      case transactions w1 t of
        None \<Rightarrow> (0, log_call failed w1)
      | Some rows \<Rightarrow>
          if oc \<noteq> Succeed \<or> next_message w1 = 0 then (0, log_call failed w1)
          else (next_message w1,
                w1\<lparr>transactions := (transactions w1)(t \<mapsto> rows(next_message w1 \<mapsto> r)),
                   next_message := next_message w1 + 1\<rparr>))"

definition mail_db_insert_message ::
  "64 word \<Rightarrow> 64 word \<Rightarrow> 32 word \<Rightarrow> 32 word \<Rightarrow> 64 word \<Rightarrow> 64 word \<Rightarrow> int \<Rightarrow> world
     \<Rightarrow> 64 word \<times> world" where
  "mail_db_insert_message user folder status msize signum sigkey t w =
     (let (num, w1) = insert_row (Insert_message t 0)
                        \<lparr>owner_id = user, folder_id = folder, status_flags = status,
                         byte_size = msize, spam_signature_id = signum, spam_key_id = sigkey\<rparr> t w
      in if num = 0 then (num, w1) else (num, log_call (Insert_message t num) w1))"

definition mail_db_insert_duplicate_message ::
  "64 word \<Rightarrow> 64 word \<Rightarrow> 32 word \<Rightarrow> 32 word \<Rightarrow> 64 word \<Rightarrow> 64 word \<Rightarrow> 64 word \<Rightarrow> int \<Rightarrow> world
     \<Rightarrow> 64 word \<times> world" where
  "mail_db_insert_duplicate_message user folder status msize signum sigkey created t w =
     (let (num, w1) = insert_row (Insert_duplicate t 0)
                        \<lparr>owner_id = user, folder_id = folder, status_flags = status,
                         byte_size = msize, spam_signature_id = signum, spam_key_id = sigkey\<rparr> t w
      in if num = 0 then (num, w1) else (num, log_call (Insert_duplicate t num) w1))"

definition mail_db_update_message_folder ::
  "64 word \<Rightarrow> 64 word \<Rightarrow> 64 word \<Rightarrow> 64 word \<Rightarrow> int \<Rightarrow> world \<Rightarrow> int \<times> world" where
  "mail_db_update_message_folder user num source target t w =
     (let (oc, w1) = next_outcome w in
      case transactions w1 t of
        None \<Rightarrow> (- 1, log_call (Update_folder t num (- 1)) w1)
      | Some rows \<Rightarrow>
          if oc \<noteq> Succeed then (- 1, log_call (Update_folder t num (- 1)) w1)
          else
            (case rows num of
               None \<Rightarrow> (0, log_call (Update_folder t num 0) w1)
             | Some r \<Rightarrow>
                 if owner_id r = user \<and> folder_id r = source
                 then (1, log_call (Update_folder t num 1)
                            (w1\<lparr>transactions :=
                                  (transactions w1)(t \<mapsto> rows(num \<mapsto> r\<lparr>folder_id := target\<rparr>))\<rparr>))
                 else (0, log_call (Update_folder t num 0) w1)))"


section \<open>objects/mail/store_message.c\<close>

subsection \<open>mail_store_message_data\<close>

text \<open>
  Lines 41 to 48: the open, and after a failed open the directory creation and the
  second open.
\<close>

definition mail_store_message_open :: "magma \<Rightarrow> 64 word \<Rightarrow> path \<Rightarrow> world \<Rightarrow> int \<times> world" where
  "mail_store_message_open g messagenum p w =
     (let (fd, w1) = open_create g p w in
      if fd < 0 then
        (let (made, w2) = mail_create_directory g messagenum None w1 in
         if made then open_create g p w2 else (fd, w2))
      else (fd, w1))"

text \<open>
  Lines 57 to 82: the two writes, the flush and the close. The result is whether all of
  them succeeded; every failure closes (where still open) and unlinks.
\<close>

definition mail_store_message_write ::
  "int \<Rightarrow> path \<Rightarrow> string \<Rightarrow> stringer \<Rightarrow> world \<Rightarrow> bool \<times> world" where
  "mail_store_message_write fd p header data w =
     (let (n1, w1) = write_fd fd header w in
      if n1 \<noteq> int (length header) then (False, unlink_path p (snd (close_fd fd w1)))
      else
        (let (n2, w2) = write_fd fd (st_char_get data) w1 in
         if n2 \<noteq> int (st_length_get data) then (False, unlink_path p (snd (close_fd fd w2)))
         else
           (let (r, w3) = fsync_fd fd w2 in
            if r \<noteq> 0 then (False, unlink_path p (snd (close_fd fd w3)))
            else
              (let (r', w4) = close_fd fd w3 in
               if r' \<noteq> 0 then (False, unlink_path p w4)
               else (True, w4)))))"

text \<open>
  The \<^verbatim>\<open>pathptr\<close> argument is \<open>None\<close> for NULL and \<open>Some c\<close> for a pointer to a cell that
  holds \<open>c\<close>; the first component of the result is the return value, the second the
  cell as the caller finds it.
\<close>

definition mail_store_message_data ::
  "magma \<Rightarrow> 64 word \<Rightarrow> 8 word \<Rightarrow> stringer \<Rightarrow> path option option \<Rightarrow> world
     \<Rightarrow> (bool \<times> path option option) \<times> world" where
  "mail_store_message_data g messagenum fflags data pathptr w =
     (let header = \<lparr>magic1 = FMESSAGE_MAGIC_1 g, magic2 = FMESSAGE_MAGIC_2 g, reserved = 0,
                    flags = fflags\<rparr>;
          cleared = (case pathptr of None \<Rightarrow> None | Some _ \<Rightarrow> Some None);
          (path, w1) = mail_message_path g messagenum None w
      in case path of
           None \<Rightarrow> ((False, cleared), w1)
         | Some p \<Rightarrow>
             (let (fd, w2) = mail_store_message_open g messagenum p w1 in
              if fd < 0 then ((False, cleared), w2)
              else
                (let (stored, w3) = mail_store_message_write fd p (header_image g header) data w2 in
                 if \<not> stored then ((False, cleared), w3)
                 else ((True, (case pathptr of None \<Rightarrow> None | Some _ \<Rightarrow> Some (Some p))), w3))))"


subsection \<open>mail_store_message\<close>

text \<open>
  Lines 113 to 131: the payload, the header flags and the status after encryption or
  compression; \<open>None\<close> when the transformation fails.
\<close>

definition mail_store_message_payload ::
  "magma \<Rightarrow> stringer \<Rightarrow> 32 word \<Rightarrow> stringer \<Rightarrow> (string \<times> 8 word \<times> 32 word) option" where
  "mail_store_message_payload g signet status message =
     (case signet of
        Some key \<Rightarrow>
          (case prime_message_encrypt g message key of
             None \<Rightarrow> None
           | Some encrypted \<Rightarrow>
               Some (encrypted, 0 OR FMESSAGE_OPT_ENCRYPTED g, status OR MAIL_STATUS_ENCRYPTED g))
      | None \<Rightarrow>
          (case compress_lzo g message of
             None \<Rightarrow> None
           | Some reduced \<Rightarrow> Some (reduced, 0 OR FMESSAGE_OPT_COMPRESSED g, status)))"

text \<open>
  The result is the return value, the status word as the caller finds it, and the world.
\<close>

definition mail_store_message ::
  "magma \<Rightarrow> 64 word \<Rightarrow> stringer \<Rightarrow> 64 word \<Rightarrow> 32 word \<Rightarrow> 64 word \<Rightarrow> 64 word \<Rightarrow> stringer \<Rightarrow> world
     \<Rightarrow> (64 word \<times> 32 word) \<times> world" where
  "mail_store_message g user signet foldernum status signum sigkey message w =
     (case mail_store_message_payload g signet status message of
        None \<Rightarrow> ((0, status), w)
      | Some (payload, fflags, status') \<Rightarrow>
          (let (transaction, w1) = tran_start w in
           if transaction < 0 then ((0, status'), w1)
           else
             (let (messagenum, w2) =
                    mail_db_insert_message user foldernum status'
                      (of_nat (st_length_get message)) signum sigkey transaction w1
              in if messagenum = 0 then ((0, status'), tran_rollback transaction w2)
                 else
                   (let ((store_result, cell), w3) =
                          mail_store_message_data g messagenum fflags (Some payload) (Some None) w2;
                        path = (case cell of None \<Rightarrow> None | Some c \<Rightarrow> c)
                    in if \<not> store_result \<or> path = None then
                         (let w4 = tran_rollback transaction w3
                          in ((0, status'),
                              (case path of None \<Rightarrow> w4 | Some p \<Rightarrow> unlink_path p w4)))
                       else
                         (let (result, w4) = tran_commit transaction w3 in
                          if result \<noteq> 0 then
                            ((0, status'), (case path of None \<Rightarrow> w4 | Some p \<Rightarrow> unlink_path p w4))
                          else ((messagenum, status'), w4))))))"


subsection \<open>mail_copy_message\<close>

text \<open>Lines 240 to 247: the link, and after a failed link the directory and the second link.\<close>

definition mail_copy_message_link ::
  "magma \<Rightarrow> 64 word \<Rightarrow> path \<Rightarrow> path \<Rightarrow> world \<Rightarrow> int \<times> world" where
  "mail_copy_message_link g messagenum origpath copypath w =
     (let (state, w1) = link_path g origpath copypath w in
      if state \<noteq> 0 then
        (let (made, w2) = mail_create_directory g messagenum None w1 in
         if made then link_path g origpath copypath w2 else (state, w2))
      else (state, w1))"

definition mail_copy_message ::
  "magma \<Rightarrow> 64 word \<Rightarrow> 64 word \<Rightarrow> stringer \<Rightarrow> 32 word \<Rightarrow> 64 word \<Rightarrow> 32 word \<Rightarrow> 64 word \<Rightarrow> 64 word
     \<Rightarrow> 64 word \<Rightarrow> world \<Rightarrow> 64 word \<times> world" where
  "mail_copy_message g user original server msize foldernum status signum sigkey created w =
     (let (origpath, w1) = mail_message_path g original server w in
      case origpath of
        None \<Rightarrow> (0, w1)
      | Some op \<Rightarrow>
          (let (fd, w2) = open_read op w1 in
           if fd < 0 then (0, w2)
           else
             (let w3 = snd (close_fd fd w2);
                  (transaction, w4) = tran_start w3
              in if transaction < 0 then (0, w4)
                 else
                   (let (messagenum, w5) =
                          mail_db_insert_duplicate_message user foldernum status msize signum sigkey
                            created transaction w4
                    in if messagenum = 0 then (0, tran_rollback transaction w5)
                       else
                         (let (copypath, w6) = mail_message_path g messagenum None w5 in
                          case copypath of
                            None \<Rightarrow> (0, tran_rollback transaction w6)
                          | Some cp \<Rightarrow>
                              (let (state, w7) = mail_copy_message_link g messagenum op cp w6 in
                               if state \<noteq> 0 then (0, tran_rollback transaction w7)
                               else
                                 (let (ret, w8) = tran_commit transaction w7 in
                                  if ret \<noteq> 0 then (0, w8) else (messagenum, w8))))))))"


subsection \<open>mail_move_message\<close>

definition mail_move_message ::
  "64 word \<Rightarrow> 64 word \<Rightarrow> 64 word \<Rightarrow> 64 word \<Rightarrow> world \<Rightarrow> int \<times> world" where
  "mail_move_message user messagenum source target w =
     (let (transaction, w1) = tran_start w in
      if transaction < 0 then (- 1, w1)
      else
        (let (result, w2) =
               mail_db_update_message_folder user messagenum source target transaction w1
         in if result \<noteq> 1 then (result, tran_rollback transaction w2)
            else
              (let (result', w3) = tran_commit transaction w2 in
               if result' \<noteq> 0 then (- 1, w3) else (1, w3))))"

text \<open>The calls made since an earlier world, and which of them go to the database.\<close>

definition calls_since :: "world \<Rightarrow> world \<Rightarrow> call list" where
  "calls_since w w' = drop (length (calls w)) (calls w')"

fun is_db :: "call \<Rightarrow> bool" where
  "is_db (Tran_start t) = True"
| "is_db (Tran_commit t r) = True"
| "is_db (Tran_rollback t) = True"
| "is_db (Insert_message t n) = True"
| "is_db (Insert_duplicate t n) = True"
| "is_db (Update_folder t n r) = True"
| "is_db _ = False"

text \<open>
  A step that leaves the database alone: the committed rows, the open transactions and
  the message counter are unchanged, and the calls added are not database calls.
\<close>

definition files_only :: "world \<Rightarrow> world \<Rightarrow> bool" where
  "files_only w w' =
     (committed w' = committed w \<and> transactions w' = transactions w \<and>
      next_message w' = next_message w \<and>
      length (calls w) \<le> length (calls w') \<and>
      take (length (calls w)) (calls w') = calls w \<and>
      filter is_db (calls_since w w') = [])"

text \<open>The calls that try to create the message file or the link, or their directory.\<close>

fun is_attempt :: "call \<Rightarrow> bool" where
  "is_attempt (Open_create p r) = True"
| "is_attempt (Link a b r) = True"
| "is_attempt (Create_directory n r) = True"
| "is_attempt _ = False"

subsection \<open>Concrete runs of the credential functions\<close>

definition alice_record :: auth where
  "alice_record =
     \<lparr>usernum = 7, username = Some ''alice'', seasoning_salt = None, seasoning_bonus = 0,
      tokens_verification = None, legacy_token = Some (replicate 64 (char_of (170 :: nat))),
      status_locked = 0\<rparr>"

definition alice_sql :: "example_db sql" where
  "alice_sql = example_sql\<lparr>issued := [Get_by_userid ''alice'']\<rparr>"

definition carol_fetch :: "int \<times> auth option \<times> example_db sql" where
  "carol_fetch = auth_data_fetch example_stacie example_codec example_statements
                   (Some (blank_auth ''carol'')) example_sql"

definition dave_fetch :: "int \<times> auth option \<times> example_db sql" where
  "dave_fetch = auth_data_fetch example_stacie example_codec example_statements
                  (Some (blank_auth ''dave@example.org'')) example_sql"

subsection \<open>A concrete store\<close>

text \<open>
  Parameters and a starting world used to run the mail functions on concrete inputs:
  a four-byte header image, paths of the form \<open>server/store/a.m\<close> whose directory is
  the part before the dot, an identity compression and a toy encryption.
\<close>

definition example_magma :: magma where
  "example_magma =
     \<lparr>FMESSAGE_MAGIC_1 = 23, FMESSAGE_MAGIC_2 = 118, FMESSAGE_OPT_COMPRESSED = 1,
      FMESSAGE_OPT_ENCRYPTED = 2, MAIL_STATUS_ENCRYPTED = 256,
      header_image = (\<lambda>h. [char_of (unat (magic1 h)), char_of (unat (magic2 h)),
                             char_of (unat (reserved h)), char_of (unat (flags h))]),
      message_path = (\<lambda>n server. st_char_get server @ ''/store/a.'' @ [char_of (unat n)]),
      directory_of = takeWhile (\<lambda>c. c \<noteq> CHR ''.''),
      prime_message_encrypt = (\<lambda>m key. if key = [] then None else Some (rev (st_char_get m))),
      compress_lzo = (\<lambda>m. case m of None \<Rightarrow> None | Some b \<Rightarrow> Some b)\<rparr>"

definition example_world :: world where
  "example_world =
     \<lparr>files = Map.empty, directories = {''/store/a''}, descriptors = Map.empty, committed = Map.empty,
      transactions = Map.empty, next_message = 65, fresh = 3, script = [], calls = []\<rparr>"

definition example_path :: path where
  "example_path = ''/store/a.A''"

definition example_header :: string where
  "example_header = [char_of (23 :: nat), char_of (118 :: nat), char_of (0 :: nat), char_of (1 :: nat)]"

text \<open>A world in which message 65 of user 7 is stored in folder 2.\<close>

definition stored_world :: world where
  "stored_world =
     example_world
       \<lparr>files := [example_path \<mapsto> \<lparr>contents = example_header @ ''hello'', synced = True\<rparr>],
        committed := [65 \<mapsto> \<lparr>owner_id = 7, folder_id = 2, status_flags = 0, byte_size = 5,
                               spam_signature_id = 0, spam_key_id = 0\<rparr>],
        next_message := 66\<rparr>"

text \<open>Runs of the mail functions with scripted failures.\<close>

definition store_data_ok :: "(bool \<times> path option option) \<times> world" where
  "store_data_ok =
     mail_store_message_data example_magma 65 1 (Some ''body'') (Some (Some ''stale''))
       example_world"

definition store_data_short :: "(bool \<times> path option option) \<times> world" where
  "store_data_short =
     mail_store_message_data example_magma 65 1 (Some ''body'') (Some (Some ''stale''))
       (example_world\<lparr>script := [Succeed, Succeed, Partial 2]\<rparr>)"

definition store_data_retry :: "(bool \<times> path option option) \<times> world" where
  "store_data_retry =
     mail_store_message_data example_magma 65 1 (Some ''body'') None
       (example_world\<lparr>script := [Succeed, Fail]\<rparr>)"

definition copy_retry_run :: "64 word \<times> world" where
  "copy_retry_run =
     mail_copy_message example_magma 7 65 None 5 2 0 0 0 0
       (stored_world\<lparr>script := [Succeed, Succeed, Succeed, Succeed, Succeed, Succeed, Fail]\<rparr>)"

definition blob_failure_world :: world where
  "blob_failure_world = example_world\<lparr>script := [Succeed, Succeed, Succeed, Succeed, Partial 2]\<rparr>"

definition blob_failure_run :: "(64 word \<times> 32 word) \<times> world" where
  "blob_failure_run = mail_store_message example_magma 7 None 2 0 0 0 (Some ''hello'') blob_failure_world"

definition move_error_world :: world where
  "move_error_world = stored_world\<lparr>script := [Succeed, Fail]\<rparr>"

section \<open>Properties of the credential functions\<close>

subsection \<open>Auxiliary facts\<close>

lemma fetch_store_check:
  "auth_data_fetch_store k c a q = (res, a') \<Longrightarrow> res = - 1 \<or> res = auth_data_fetch_check k a'"
  by (auto simp: auth_data_fetch_store_def Let_def split: if_splits option.splits)

lemma check_values: "auth_data_fetch_check k a = 0 \<or> auth_data_fetch_check k a = - 1"
  by (simp add: auth_data_fetch_check_def)

lemma check_zero_forms:
  "auth_data_fetch_check k a = 0 \<longleftrightarrow>
     (stacie_form k a \<or> (legacy_form a \<and> st_length_get (legacy_token a) = 64 \<and>
        unat (seasoning_bonus a) \<le> STACIE_KEY_ROUNDS_MAX k))"
  by (auto simp: auth_data_fetch_check_def stacie_form_def legacy_form_def)

lemma forms_exclusive: "\<not> (legacy_form a \<and> stacie_form k a)"
  by (simp add: stacie_form_def legacy_form_def)

lemma fetch_cases:
  assumes "auth_data_fetch k c st (Some a) s = (res, p, s')"
  shows "(res = - 1 \<and> p = Some a \<and> s' = s \<and> st_empty (username a)) \<or>
         (\<exists>r. auth_data_fetch_lookup st a s = (Inl r, s') \<and> res = r \<and> p = Some a) \<or>
         (\<exists>q a'. auth_data_fetch_lookup st a s = (Inr q, s') \<and>
                  auth_data_fetch_store k c a q = (res, a') \<and> p = Some a')"
  using assms
  by (auto simp: auth_data_fetch_def split: if_splits prod.splits sum.splits)

lemma lookup_Inl: "auth_data_fetch_lookup st a s = (Inl r, s') \<Longrightarrow> r = 1 \<or> r = - 1"
  by (auto simp: auth_data_fetch_lookup_def Let_def split: if_splits prod.splits option.splits)

lemma fetch_zero_check:
  assumes "auth_data_fetch k c st (Some a) s = (0, p, s')"
  shows "\<exists>a'. p = Some a' \<and> auth_data_fetch_check k a' = 0"
proof -
  from fetch_cases [OF assms] show ?thesis
  proof (elim disjE exE conjE)
    fix q a' assume "auth_data_fetch_store k c a q = (0, a')" "p = Some a'"
    then show ?thesis using fetch_store_check [of k c a q 0 a'] by simp
  next
    fix r assume "auth_data_fetch_lookup st a s = (Inl r, s')" "0 = r"
    then show ?thesis using lookup_Inl [of st a s r s'] by simp
  qed simp
qed

lemma lookup_log:
  "issued (snd (auth_data_fetch_lookup st a s)) =
     issued s @ Get_by_userid (st_char_get (username a)) #
       (if auth_get_by_userid st (database s) (st_char_get (username a)) = Some [] \<and>
           st_search_chr (username a) CHR ''@''
        then [Get_by_address (st_char_get (username a))] else [])"
  by (auto simp: auth_data_fetch_lookup_def stmt_get_result_userid_def stmt_get_result_address_def
       res_row_count_def Let_def split: option.splits prod.splits)

lemma fetch_log:
  "\<not> st_empty (username a) \<Longrightarrow>
   snd (snd (auth_data_fetch k c st (Some a) s)) = snd (auth_data_fetch_lookup st a s)"
  by (auto simp: auth_data_fetch_def split: prod.splits sum.splits)

lemma fetch_one:
  assumes "\<not> st_empty (username a)"
  shows "fst (auth_data_fetch k c st (Some a) s) = 1 \<longleftrightarrow>
         fst (auth_data_fetch_lookup st a s) = Inl 1"
proof -
  obtain res p s' where f: "auth_data_fetch k c st (Some a) s = (res, p, s')"
    by (cases "auth_data_fetch k c st (Some a) s") auto
  from fetch_cases [OF f] assms show ?thesis
    using f fetch_store_check check_values
    apply auto
    by (metis one_neq_neg_one zero_neq_one)+
qed

lemma lookup_one:
  "fst (auth_data_fetch_lookup st a s) = Inl 1 \<longleftrightarrow>
     auth_get_by_userid st (database s) (st_char_get (username a)) = Some [] \<and>
     (st_search_chr (username a) CHR ''@'' \<longrightarrow>
        auth_get_by_address st (database s) (st_char_get (username a)) = Some [])"
  by (auto simp: auth_data_fetch_lookup_def stmt_get_result_userid_def stmt_get_result_address_def
       res_row_count_def Let_def split: option.splits prod.splits)

lemma hex_pairs_replicate:
  "hex_value c = Some v \<Longrightarrow>
   hex_pairs (replicate (2 * n) c) = Some (replicate n (char_of (16 * v + v)))"
  by (induction n) simp_all

lemma hex_pairs_example:
  "hex_pairs (replicate 128 CHR ''a'') = Some (replicate 64 (char_of (170 :: nat)))"
proof -
  have "hex_value CHR ''a'' = Some 10" by (simp add: hex_value_def)
  from hex_pairs_replicate [OF this, of 64] show ?thesis by simp
qed

lemma alice_lookup:
  "auth_data_fetch_lookup example_statements (blank_auth ''alice'') example_sql
     = (Inr [legacy_row], alice_sql)"
  by (simp add: auth_data_fetch_lookup_def stmt_get_result_userid_def example_statements_def
      example_sql_def alice_sql_def blank_auth_def st_char_get_def res_row_count_def
      legacy_row_def stacie_row_def Let_def)

lemma alice_store:
  "auth_data_fetch_store example_stacie example_codec (blank_auth ''alice'') [legacy_row]
     = (0, alice_record)"
  by (simp add: auth_data_fetch_store_def res_row_count_def res_row_next_def legacy_row_def
      blank_auth_def example_codec_def hex_pairs_example auth_data_fetch_check_def
      st_empty_def st_length_get_def example_stacie_def alice_record_def)

lemma alice_fetch:
  "auth_data_fetch example_stacie example_codec example_statements
     (Some (blank_auth ''alice'')) example_sql = (0, Some alice_record, alice_sql)"
proof -
  have "\<not> st_empty (username (blank_auth ''alice''))"
    by (simp add: blank_auth_def st_empty_def)
  then show ?thesis
    by (simp add: auth_data_fetch_def alice_lookup alice_store)
qed

lemma alice_legacy: "\<not> st_empty (legacy_token alice_record)"
  by (simp add: alice_record_def st_empty_def)


subsection \<open>The credential forms after a fetch\<close>

text \<open>
  C1. Whenever \<open>auth_data_fetch\<close> returns 0, the record it leaves holds exactly one of
  the two credential forms: a legacy token with an empty salt and an empty verification
  token, or a complete STACIE triple (salt of \<open>STACIE_SALT_LENGTH\<close> bytes, verification
  token of \<open>STACIE_TOKEN_LENGTH\<close> bytes, bonus rounds at most \<open>STACIE_KEY_ROUNDS_MAX\<close>)
  with an empty legacy token. Whenever the lookups returned rows, the result is 0 or -1,
  and it is -1 when the record mixes a legacy token with a salt or a verification token,
  and when it has no legacy token and the STACIE triple is not complete.
\<close>

theorem auth_data_fetch_one_form:
  assumes fetch: "auth_data_fetch k c st (Some a) s = (res, Some a', s')"
  shows "(res = 0 \<longrightarrow>
            (legacy_form a' \<and> \<not> stacie_form k a') \<or> (stacie_form k a' \<and> \<not> legacy_form a')) \<and>
         (\<not> st_empty (username a) \<and> fst (auth_data_fetch_lookup st a s) = Inr query \<longrightarrow>
            (res = 0 \<or> res = - 1) \<and>
            (\<not> st_empty (legacy_token a') \<and>
               (\<not> st_empty (seasoning_salt a') \<or> \<not> st_empty (tokens_verification a'))
               \<longrightarrow> res = - 1) \<and>
            (st_empty (legacy_token a') \<and> \<not> stacie_form k a' \<longrightarrow> res = - 1))"
proof (intro conjI impI)
  assume "res = 0"
  with fetch fetch_zero_check [of k c st a s "Some a'" s']
  have "auth_data_fetch_check k a' = 0" by simp
  then show "(legacy_form a' \<and> \<not> stacie_form k a') \<or> (stacie_form k a' \<and> \<not> legacy_form a')"
    using forms_exclusive [of a' k] by (auto simp: check_zero_forms)
next
  assume rows: "\<not> st_empty (username a) \<and> fst (auth_data_fetch_lookup st a s) = Inr query"
  from fetch_cases [OF fetch] rows
  obtain q where st: "auth_data_fetch_store k c a q = (res, a')"
    by auto
  from fetch_store_check [OF st] check_values [of k a']
  show v: "res = 0 \<or> res = - 1" by auto
  have z: "res = 0 \<Longrightarrow> auth_data_fetch_check k a' = 0"
    using fetch_store_check [OF st] by auto
  show "res = - 1"
    if "\<not> st_empty (legacy_token a') \<and>
        (\<not> st_empty (seasoning_salt a') \<or> \<not> st_empty (tokens_verification a'))"
    using that v z by (auto simp: check_zero_forms stacie_form_def legacy_form_def)
  show "res = - 1" if "st_empty (legacy_token a') \<and> \<not> stacie_form k a'"
    using that v z by (auto simp: check_zero_forms legacy_form_def)
qed

theorem auth_data_fetch_one_form_witness:
  "auth_data_fetch example_stacie example_codec example_statements
     (Some (blank_auth ''alice'')) example_sql = (0, Some alice_record, alice_sql) \<and>
   fst (auth_data_fetch_lookup example_statements (blank_auth ''alice'') example_sql)
     = Inr [legacy_row] \<and>
   legacy_form alice_record \<and> \<not> stacie_form example_stacie alice_record"
  using auth_data_fetch_one_form [OF alice_fetch, of "[legacy_row]"] alice_fetch alice_lookup
    alice_legacy
  by (auto simp: stacie_form_def)


subsection \<open>The length of a fetched legacy token\<close>

text \<open>
  C5, as the specification states it, fails: the legacy token of a successful fetch is
  not 32 bytes long. The run below fetches a row whose legacy column holds 128
  hexadecimal digits; the fetch returns 0 and the token has 64 bytes.
\<close>

theorem auth_data_fetch_legacy_32_counterexample:
  "auth_data_fetch example_stacie example_codec example_statements
     (Some (blank_auth ''alice'')) example_sql = (0, Some alice_record, alice_sql) \<and>
   \<not> st_empty (legacy_token alice_record) \<and>
   st_length_get (legacy_token alice_record) \<noteq> 32"
  using alice_fetch by (simp add: alice_record_def st_empty_def st_length_get_def)

text \<open>
  C5, amended. For every record that \<open>auth_data_fetch\<close> returns with result 0 and a
  non-empty legacy token, that token is exactly 64 bytes long.
\<close>

theorem auth_data_fetch_legacy_length:
  assumes "auth_data_fetch k c st (Some a) s = (0, Some a', s')"
      and "\<not> st_empty (legacy_token a')"
  shows "st_length_get (legacy_token a') = 64"
  using fetch_zero_check [OF assms(1)] assms(2)
  by (auto simp: check_zero_forms stacie_form_def)

theorem auth_data_fetch_legacy_length_witness:
  "auth_data_fetch example_stacie example_codec example_statements
     (Some (blank_auth ''alice'')) example_sql = (0, Some alice_record, alice_sql) \<and>
   \<not> st_empty (legacy_token alice_record) \<and>
   st_length_get (legacy_token alice_record) = 64"
  using auth_data_fetch_legacy_length [OF alice_fetch alice_legacy] alice_fetch alice_legacy
  by simp


subsection \<open>Validation in the credential update\<close>

text \<open>
  C6. When the legacy token is empty or not 128 characters long, or the salt is empty or
  not 171 characters long, or the verification token is empty or not 86 characters long,
  or the bonus rounds exceed \<open>STACIE_KEY_ROUNDS_MAX\<close>, \<open>auth_data_update_legacy\<close>
  returns -1 and leaves the database and the list of issued statements as they were: no
  update is issued.
\<close>

theorem auth_data_update_legacy_rejects:
  assumes "st_empty legacy \<or> st_length_get legacy \<noteq> 128 \<or>
           st_empty salt \<or> st_length_get salt \<noteq> 171 \<or>
           st_empty verification \<or> st_length_get verification \<noteq> 86 \<or>
           unat bonus > STACIE_KEY_ROUNDS_MAX k"
  shows "auth_data_update_legacy k st user legacy salt verification bonus s = (- 1, s)"
  using assms by (auto simp: auth_data_update_legacy_def)

theorem auth_data_update_legacy_rejects_witness:
  "st_length_get (Some (replicate 127 CHR ''a'')) \<noteq> 128 \<and>
   auth_data_update_legacy example_stacie example_statements 7
     (Some (replicate 127 CHR ''a'')) (Some (replicate 171 CHR ''Q''))
     (Some (replicate 86 CHR ''z'')) 5 example_sql = (- 1, example_sql)"
proof -
  have h: "st_length_get (Some (replicate 127 CHR ''a'')) \<noteq> 128"
    by (simp add: st_length_get_def)
  then have "st_empty (Some (replicate 127 CHR ''a'')) \<or>
             st_length_get (Some (replicate 127 CHR ''a'')) \<noteq> 128 \<or>
             st_empty (Some (replicate 171 CHR ''Q'')) \<or>
             st_length_get (Some (replicate 171 CHR ''Q'')) \<noteq> 171 \<or>
             st_empty (Some (replicate 86 CHR ''z'')) \<or>
             st_length_get (Some (replicate 86 CHR ''z'')) \<noteq> 86 \<or>
             unat (5 :: 32 word) > STACIE_KEY_ROUNDS_MAX example_stacie"
    by blast
  from auth_data_update_legacy_rejects [OF this, of example_statements 7 example_sql] h
  show ?thesis by blast
qed

text \<open>
  C9. With user number 0, \<open>auth_data_update_legacy\<close> returns -1 and issues no update,
  whatever the four credential fields are; with the four fields valid and a non-zero user
  number the update statement is issued.
\<close>

theorem auth_data_update_legacy_zero_user:
  "auth_data_update_legacy k st 0 legacy salt verification bonus s = (- 1, s) \<and>
   (\<not> (st_empty legacy \<or> st_length_get legacy \<noteq> 128) \<and>
    \<not> (st_empty salt \<or> st_length_get salt \<noteq> 171) \<and>
    \<not> (st_empty verification \<or> st_length_get verification \<noteq> 86) \<and>
    unat bonus \<le> STACIE_KEY_ROUNDS_MAX k \<and> user \<noteq> 0 \<longrightarrow>
    issued (snd (auth_data_update_legacy k st user legacy salt verification bonus s)) =
      issued s @ [Update_legacy_to_stacie
                   \<lparr>bind_salt = st_char_get salt, bind_verification = st_char_get verification,
                    bind_bonus = bonus, bind_usernum = user, bind_legacy = st_char_get legacy\<rparr>])"
  by (auto simp: auth_data_update_legacy_def stmt_exec_affected_legacy_def Let_def
      split: prod.splits)

theorem auth_data_update_legacy_zero_user_witness:
  "auth_data_update_legacy example_stacie example_statements 0
     (Some (replicate 128 CHR ''a'')) (Some (replicate 171 CHR ''Q''))
     (Some (replicate 86 CHR ''z'')) 5 example_sql = (- 1, example_sql) \<and>
   issued (snd (auth_data_update_legacy example_stacie example_statements 7
     (Some (replicate 128 CHR ''a'')) (Some (replicate 171 CHR ''Q''))
     (Some (replicate 86 CHR ''z'')) 5 example_sql)) =
     [Update_legacy_to_stacie
        \<lparr>bind_salt = replicate 171 CHR ''Q'', bind_verification = replicate 86 CHR ''z'',
         bind_bonus = 5, bind_usernum = 7, bind_legacy = replicate 128 CHR ''a''\<rparr>]"
  using auth_data_update_legacy_zero_user [of example_stacie example_statements
      "Some (replicate 128 CHR ''a'')" "Some (replicate 171 CHR ''Q'')"
      "Some (replicate 86 CHR ''z'')" 5 example_sql 7]
  by (simp add: st_empty_def st_length_get_def st_char_get_def example_stacie_def
      example_sql_def)


subsection \<open>The order of the two lookups\<close>

text \<open>
  C7. For a non-empty user name, \<open>auth_data_fetch\<close> first issues the lookup by user
  name. If that returns no rows and the name contains \<open>@\<close>, it issues the lookup by
  address as its second and last statement, and it returns 1 exactly when that lookup
  returns no rows either. If the lookup by user name returns no rows and the name has no
  \<open>@\<close>, the result is 1 and the lookup by user name is the only statement issued. In
  every other case the lookup by address is not issued and the result is not 1.
\<close>

theorem auth_data_fetch_lookup_order:
  assumes name: "\<not> st_empty (username a)"
      and fetch: "auth_data_fetch k c st (Some a) s = (res, p, s')"
      and u: "u = st_char_get (username a)"
  shows "(auth_get_by_userid st (database s) u = Some [] \<and> st_search_chr (username a) CHR ''@''
            \<longrightarrow> issued s' = issued s @ [Get_by_userid u, Get_by_address u] \<and>
                (res = 1 \<longleftrightarrow> auth_get_by_address st (database s) u = Some [])) \<and>
         (auth_get_by_userid st (database s) u = Some [] \<and> \<not> st_search_chr (username a) CHR ''@''
            \<longrightarrow> res = 1 \<and> issued s' = issued s @ [Get_by_userid u]) \<and>
         (auth_get_by_userid st (database s) u \<noteq> Some []
            \<longrightarrow> res \<noteq> 1 \<and> issued s' = issued s @ [Get_by_userid u])"
proof -
  have l: "issued s' = issued (snd (auth_data_fetch_lookup st a s))"
    using fetch_log [OF name, of k c st s] fetch by simp
  have r: "res = 1 \<longleftrightarrow> fst (auth_data_fetch_lookup st a s) = Inl 1"
    using fetch_one [OF name, of k c st s] fetch by simp
  show ?thesis
    unfolding l r lookup_log lookup_one u by auto
qed

theorem auth_data_fetch_lookup_order_witness:
  "fst carol_fetch = 1 \<and> issued (snd (snd carol_fetch)) = [Get_by_userid ''carol''] \<and>
   fst dave_fetch = 1 \<and>
   issued (snd (snd dave_fetch)) =
     [Get_by_userid ''dave@example.org'', Get_by_address ''dave@example.org'']"
proof -
  have c: "auth_data_fetch example_stacie example_codec example_statements
             (Some (blank_auth ''carol'')) example_sql
           = (fst carol_fetch, fst (snd carol_fetch), snd (snd carol_fetch))"
    by (simp add: carol_fetch_def)
  have d: "auth_data_fetch example_stacie example_codec example_statements
             (Some (blank_auth ''dave@example.org'')) example_sql
           = (fst dave_fetch, fst (snd dave_fetch), snd (snd dave_fetch))"
    by (simp add: dave_fetch_def)
  have nc: "\<not> st_empty (username (blank_auth ''carol''))"
    and nd: "\<not> st_empty (username (blank_auth ''dave@example.org''))"
    by (simp_all add: blank_auth_def st_empty_def)
  from auth_data_fetch_lookup_order [OF nc c refl] auth_data_fetch_lookup_order [OF nd d refl]
  show ?thesis
    by (simp add: blank_auth_def st_char_get_def st_search_chr_def example_statements_def
        example_sql_def legacy_row_def stacie_row_def Let_def)
qed

section \<open>Properties of the mail functions\<close>

subsection \<open>Steps that leave the database alone\<close>


lemma calls_since_append: "calls w' = calls w @ cs \<Longrightarrow> calls_since w w' = cs"
  by (simp add: calls_since_def)

lemma files_only_refl: "files_only w w"
  by (simp add: files_only_def calls_since_def)

lemma files_only_appendI:
  "committed w' = committed w \<Longrightarrow> transactions w' = transactions w \<Longrightarrow>
   next_message w' = next_message w \<Longrightarrow> calls w' = calls w @ cs \<Longrightarrow>
   filter is_db cs = [] \<Longrightarrow> files_only w w'"
  by (simp add: files_only_def calls_since_def)

lemma files_only_appendD:
  assumes "files_only w w'"
  shows "calls w' = calls w @ calls_since w w'"
  using assms append_take_drop_id [of "length (calls w)" "calls w'"]
  by (simp add: files_only_def calls_since_def)

lemma files_only_trans:
  assumes "files_only w w1" "files_only w1 w2"
  shows "files_only w w2"
proof -
  have a: "calls w1 = calls w @ calls_since w w1" using assms(1) by (rule files_only_appendD)
  have b: "calls w2 = calls w1 @ calls_since w1 w2" using assms(2) by (rule files_only_appendD)
  have c: "calls w2 = calls w @ (calls_since w w1 @ calls_since w1 w2)" using a b by simp
  show ?thesis
    apply (rule files_only_appendI [OF _ _ _ c])
    using assms by (simp_all add: files_only_def)
qed

lemma files_only_mail_message_path:
  "mail_message_path g n sv w = (r, w') \<Longrightarrow> files_only w w'"
  by (auto simp: mail_message_path_def next_outcome_def log_call_def Let_def
      intro!: files_only_appendI split: list.splits if_splits)

lemma files_only_mail_create_directory:
  "mail_create_directory g n sv w = (r, w') \<Longrightarrow> files_only w w'"
  by (auto simp: mail_create_directory_def next_outcome_def log_call_def Let_def
      intro!: files_only_appendI split: list.splits if_splits)

lemma files_only_open_create:
  "open_create g p w = (r, w') \<Longrightarrow> files_only w w'"
  by (auto simp: open_create_def next_outcome_def log_call_def Let_def
      intro!: files_only_appendI split: list.splits if_splits)

lemma files_only_open_read:
  "open_read p w = (r, w') \<Longrightarrow> files_only w w'"
  by (auto simp: open_read_def next_outcome_def log_call_def Let_def
      intro!: files_only_appendI split: list.splits if_splits)

lemma files_only_write_fd:
  "write_fd fd buf w = (r, w') \<Longrightarrow> files_only w w'"
  by (auto simp: write_fd_def next_outcome_def log_call_def append_file_def Let_def
      intro!: files_only_appendI split: list.splits if_splits option.splits outcome.splits)

lemma files_only_fsync_fd:
  "fsync_fd fd w = (r, w') \<Longrightarrow> files_only w w'"
  by (auto simp: fsync_fd_def next_outcome_def log_call_def Let_def
      intro!: files_only_appendI split: list.splits if_splits option.splits)

lemma files_only_close_fd:
  "close_fd fd w = (r, w') \<Longrightarrow> files_only w w'"
  by (auto simp: close_fd_def next_outcome_def log_call_def Let_def
      intro!: files_only_appendI split: list.splits if_splits option.splits)

lemma files_only_close_fd_snd: "files_only w (snd (close_fd fd w))"
  using files_only_close_fd [of fd w] by (cases "close_fd fd w") simp

lemma files_only_unlink_path: "files_only w (unlink_path p w)"
  by (auto simp: unlink_path_def log_call_def intro!: files_only_appendI)

lemma files_only_link_path:
  "link_path g a b w = (r, w') \<Longrightarrow> files_only w w'"
  by (auto simp: link_path_def next_outcome_def log_call_def Let_def
      intro!: files_only_appendI split: list.splits if_splits option.splits)

lemmas files_only_prims = files_only_mail_message_path files_only_mail_create_directory
  files_only_open_create files_only_open_read files_only_write_fd files_only_fsync_fd
  files_only_close_fd files_only_link_path

lemma files_only_open_stage:
  "mail_store_message_open g n p w = (fd, w') \<Longrightarrow> files_only w w'"
  by (auto simp: mail_store_message_open_def Let_def split: prod.splits if_splits
      intro: files_only_trans dest!: files_only_prims)

lemma files_only_link_stage:
  "mail_copy_message_link g n a b w = (r, w') \<Longrightarrow> files_only w w'"
  by (auto simp: mail_copy_message_link_def Let_def split: prod.splits if_splits
      intro: files_only_trans dest!: files_only_prims)

lemma files_only_unlink_close:
  "files_only w w1 \<Longrightarrow> files_only w (unlink_path p (snd (close_fd fd w1)))"
  by (blast intro: files_only_trans files_only_unlink_path files_only_close_fd_snd)

lemma files_only_write_stage:
  "mail_store_message_write fd p h d w = (ok, w') \<Longrightarrow> files_only w w'"
  apply (simp add: mail_store_message_write_def Let_def split: prod.splits if_splits)
  apply (safe dest!: files_only_prims)
  apply (meson files_only_trans files_only_unlink_path files_only_close_fd_snd)+
  done

lemma files_only_data:
  "mail_store_message_data g n fl d pp w = (r, w') \<Longrightarrow> files_only w w'"
  by (auto simp: mail_store_message_data_def Let_def split: prod.splits if_splits option.splits
      intro: files_only_trans dest!: files_only_mail_message_path files_only_open_stage files_only_write_stage)

subsection \<open>Effects of the system calls\<close>


lemma st_length_char: "st_length_get d = length (st_char_get d)"
  by (simp add: st_length_get_def st_char_get_def split: option.splits)

lemma mail_message_path_effect:
  assumes "mail_message_path g n sv w = (r, w')"
  shows "calls w' = calls w @ [Message_path n sv (r \<noteq> None)]"
    and "files w' = files w" and "directories w' = directories w"
    and "r = None \<or> r = Some (message_path g n sv)"
  using assms
  by (auto simp: mail_message_path_def next_outcome_def log_call_def Let_def
      split: list.splits if_splits)

lemma mail_create_directory_effect:
  assumes "mail_create_directory g n sv w = (r, w')"
  shows "calls w' = calls w @ [Create_directory n r]" and "files w' = files w"
  using assms
  by (auto simp: mail_create_directory_def next_outcome_def log_call_def Let_def
      split: list.splits if_splits)

lemma open_create_ok:
  assumes "open_create g p w = (fd, w')" "0 \<le> fd"
  shows "descriptors w' fd = Some p" 
    and "files w' p = Some \<lparr>contents = [], synced = False\<rparr>"
    and "calls w' = calls w @ [Open_create p None]"
  using assms
  by (auto simp: open_create_def next_outcome_def log_call_def Let_def
      split: list.splits if_splits)

lemma open_create_fail:
  assumes "open_create g p w = (fd, w')" "fd < 0"
  shows "\<exists>e. calls w' = calls w @ [Open_create p (Some e)]" and "files w' = files w"
  using assms
  by (auto simp: open_create_def next_outcome_def log_call_def Let_def
      split: list.splits if_splits)

lemma link_path_ok:
  assumes "link_path g a b w = (r, w')" "r = 0"
  shows "calls w' = calls w @ [Link a b None]"
  using assms
  by (auto simp: link_path_def next_outcome_def log_call_def Let_def
      split: list.splits if_splits option.splits)

lemma link_path_fail:
  assumes "link_path g a b w = (r, w')" "r \<noteq> 0"
  shows "\<exists>e. calls w' = calls w @ [Link a b (Some e)]" and "files w' = files w"
  using assms
  by (auto simp: link_path_def next_outcome_def log_call_def Let_def
      split: list.splits if_splits option.splits)

lemma write_fd_effect:
  assumes "write_fd fd buf w = (r, w')"
  shows "calls w' = calls w @ [Write fd r]" and "descriptors w' = descriptors w"
  using assms
  by (auto simp: write_fd_def next_outcome_def log_call_def append_file_def Let_def
      split: list.splits if_splits option.splits outcome.splits)

lemma write_fd_full:
  assumes "write_fd fd buf w = (r, w')" "r = int (length buf)"
      "descriptors w fd = Some p" "files w p = Some f"
  shows "files w' p = Some \<lparr>contents = contents f @ buf, synced = False\<rparr>"
  using assms
  by (auto simp: write_fd_def next_outcome_def log_call_def append_file_def Let_def min_def
      split: list.splits if_splits option.splits outcome.splits)

lemma fsync_fd_effect:
  assumes "fsync_fd fd w = (r, w')"
  shows "calls w' = calls w @ [Fsync fd r]" and "descriptors w' = descriptors w"
  using assms
  by (auto simp: fsync_fd_def next_outcome_def log_call_def Let_def
      split: list.splits if_splits option.splits)

lemma fsync_fd_ok:
  assumes "fsync_fd fd w = (0, w')" "descriptors w fd = Some p" "files w p = Some f"
  shows "files w' p = Some (f\<lparr>synced := True\<rparr>)"
  using assms
  by (auto simp: fsync_fd_def next_outcome_def log_call_def Let_def
      split: list.splits if_splits option.splits)

lemma close_fd_effect:
  assumes "close_fd fd w = (r, w')"
  shows "calls w' = calls w @ [Close fd r]" and "files w' = files w"
  using assms
  by (auto simp: close_fd_def next_outcome_def log_call_def Let_def
      split: list.splits if_splits option.splits)

lemma unlink_path_effect:
  "calls (unlink_path p w) = calls w @ [Unlink p]" "files (unlink_path p w) p = None"
  by (simp_all add: unlink_path_def log_call_def)

lemma unlink_close_effect:
  "files (unlink_path p (snd (close_fd fd w))) p = None"
  "calls (unlink_path p (snd (close_fd fd w))) =
     calls w @ [Close fd (fst (close_fd fd w)), Unlink p]"
  using close_fd_effect [of fd w "fst (close_fd fd w)" "snd (close_fd fd w)"]
  by (simp_all add: unlink_path_effect)

lemma close_fd_snd:
  "calls (snd (close_fd fd w)) = calls w @ [Close fd (fst (close_fd fd w))]"
  "files (snd (close_fd fd w)) = files w"
  using close_fd_effect [of fd w "fst (close_fd fd w)" "snd (close_fd fd w)"] by simp_all

lemma write_stage_fail:
  assumes "mail_store_message_write fd p h d w = (False, w')"
  shows "files w' p = None" and "last (calls w') = Unlink p"
    and "filter is_attempt (calls_since w w') = []"
  using assms
  by (auto simp: mail_store_message_write_def Let_def unlink_path_effect close_fd_snd
        calls_since_def
      split: prod.splits if_splits
      dest!: write_fd_effect(1) fsync_fd_effect(1) close_fd_effect(1))

lemma write_stage_ok:
  assumes run: "mail_store_message_write fd p h d w = (True, w')"
      and fd: "descriptors w fd = Some p"
      and f: "files w p = Some \<lparr>contents = [], synced = False\<rparr>"
  shows "files w' p = Some \<lparr>contents = h @ st_char_get d, synced = True\<rparr>"
    and "calls w' = calls w @ [Write fd (int (length h)), Write fd (int (st_length_get d)),
                                Fsync fd 0, Close fd 0]"
proof -
  from run obtain w1 w2 w3 where
    a: "write_fd fd h w = (int (length h), w1)" and
    b: "write_fd fd (st_char_get d) w1 = (int (st_length_get d), w2)" and
    c: "fsync_fd fd w2 = (0, w3)" and
    e: "close_fd fd w3 = (0, w')"
    by (auto simp: mail_store_message_write_def Let_def split: prod.splits if_splits)
  have f1: "files w1 p = Some \<lparr>contents = h, synced = False\<rparr>"
    using write_fd_full [OF a refl fd f] by simp
  have d1: "descriptors w1 fd = Some p" using write_fd_effect(2) [OF a] fd by simp
  have f2: "files w2 p = Some \<lparr>contents = h @ st_char_get d, synced = False\<rparr>"
    using write_fd_full [OF b st_length_char [THEN arg_cong] d1 f1] by simp
  have d2: "descriptors w2 fd = Some p" using write_fd_effect(2) [OF b] d1 by simp
  have f3: "files w3 p = Some \<lparr>contents = h @ st_char_get d, synced = True\<rparr>"
    using fsync_fd_ok [OF c d2 f2] by simp
  show "files w' p = Some \<lparr>contents = h @ st_char_get d, synced = True\<rparr>"
    using close_fd_effect(2) [OF e] f3 by simp
  show "calls w' = calls w @ [Write fd (int (length h)), Write fd (int (st_length_get d)),
                                Fsync fd 0, Close fd 0]"
    using write_fd_effect(1) [OF a] write_fd_effect(1) [OF b] fsync_fd_effect(1) [OF c]
      close_fd_effect(1) [OF e] by simp
qed

lemma open_stage_shape:
  assumes "mail_store_message_open g n p w = (fd, w')"
  shows "(calls_since w w' = [Open_create p None] \<and> 0 \<le> fd) \<or>
         (\<exists>e. calls_since w w' = [Open_create p (Some e), Create_directory n False] \<and> fd < 0) \<or>
         (\<exists>e. calls_since w w' = [Open_create p (Some e), Create_directory n True,
                                   Open_create p None] \<and> 0 \<le> fd) \<or>
         (\<exists>e e'. calls_since w w' = [Open_create p (Some e), Create_directory n True,
                                      Open_create p (Some e')] \<and> fd < 0)"
proof -
  obtain fd1 w1 where o1: "open_create g p w = (fd1, w1)" by (cases "open_create g p w") auto
  show ?thesis
  proof (cases "fd1 < 0")
    case False
    with o1 assms have "fd = fd1" "w' = w1" by (auto simp: mail_store_message_open_def)
    with open_create_ok(3) [OF o1] False show ?thesis by (simp add: calls_since_def)
  next
    case True
    from open_create_fail(1) [OF o1 True] obtain e where
      c1: "calls w1 = calls w @ [Open_create p (Some e)]" by blast
    obtain made w2 where m: "mail_create_directory g n None w1 = (made, w2)"
      by (cases "mail_create_directory g n None w1") auto
    have c2: "calls w2 = calls w @ [Open_create p (Some e), Create_directory n made]"
      using mail_create_directory_effect(1) [OF m] c1 by simp
    show ?thesis
    proof (cases made)
      case False
      with o1 m True assms have "fd = fd1" "w' = w2" by (auto simp: mail_store_message_open_def)
      with c2 False True show ?thesis by (simp add: calls_since_def)
    next
      case made: True
      with o1 m True assms have o2: "open_create g p w2 = (fd, w')"
        by (auto simp: mail_store_message_open_def)
      show ?thesis
      proof (cases "fd < 0")
        case True
        from open_create_fail(1) [OF o2 True] obtain e' where
          "calls w' = calls w2 @ [Open_create p (Some e')]" by blast
        with c2 made True show ?thesis by (simp add: calls_since_def)
      next
        case False
        with open_create_ok(3) [OF o2] c2 made show ?thesis by (simp add: calls_since_def)
      qed
    qed
  qed
qed

lemma open_stage_ok:
  assumes "mail_store_message_open g n p w = (fd, w')" "0 \<le> fd"
  shows "descriptors w' fd = Some p" and "files w' p = Some \<lparr>contents = [], synced = False\<rparr>"
  using assms
  by (auto simp: mail_store_message_open_def Let_def split: prod.splits if_splits
      dest: open_create_ok)

lemma open_stage_fail:
  assumes "mail_store_message_open g n p w = (fd, w')" "fd < 0"
  shows "files w' = files w"
  using assms
  apply (auto simp: mail_store_message_open_def Let_def split: prod.splits if_splits)
  apply (metis open_create_fail(2) mail_create_directory_effect(2))+
  done

subsection \<open>The blob write as a whole\<close>


lemma write_stage_quiet:
  assumes "mail_store_message_write fd p h d w = (ok, w')"
  shows "filter is_attempt (calls_since w w') = []"
  using assms
  by (auto simp: mail_store_message_write_def Let_def unlink_path_effect close_fd_snd
        calls_since_def
      split: prod.splits if_splits
      dest!: write_fd_effect(1) fsync_fd_effect(1) close_fd_effect(1))

lemma calls_since_trans:
  assumes "files_only w w1" "files_only w1 w2"
  shows "calls_since w w2 = calls_since w w1 @ calls_since w1 w2"
  using files_only_appendD [OF assms(1)] files_only_appendD [OF assms(2)]
  by (metis append.assoc calls_since_append)

text \<open>The three ways through \<open>mail_store_message_data\<close>.\<close>

lemma data_cases:
  assumes run: "mail_store_message_data g n fl d pp w = ((ok, cell), w')"
  shows "(\<not> ok \<and> calls_since w w' = [Message_path n None False] \<and> files w' = files w) \<or>
         (\<exists>fd w1 w2. \<not> ok \<and> fd < 0 \<and> mail_message_path g n None w = (Some (message_path g n None), w1) \<and>
            mail_store_message_open g n (message_path g n None) w1 = (fd, w2) \<and> w' = w2) \<or>
         (\<exists>fd w1 w2. 0 \<le> fd \<and> mail_message_path g n None w = (Some (message_path g n None), w1) \<and>
            mail_store_message_open g n (message_path g n None) w1 = (fd, w2) \<and>
            mail_store_message_write fd (message_path g n None)
              (header_image g \<lparr>magic1 = FMESSAGE_MAGIC_1 g, magic2 = FMESSAGE_MAGIC_2 g,
                                reserved = 0, flags = fl\<rparr>) d w2 = (ok, w'))"
proof -
  obtain r w1 where pa: "mail_message_path g n None w = (r, w1)"
    by (cases "mail_message_path g n None w") auto
  show ?thesis
  proof (cases r)
    case None
    with run pa have "\<not> ok" "w' = w1" by (auto simp: mail_store_message_data_def Let_def)
    with mail_message_path_effect [OF pa] None show ?thesis by (simp add: calls_since_def)
  next
    case (Some p)
    with mail_message_path_effect(4) [OF pa] have p: "p = message_path g n None" by simp
    obtain fd w2 where op: "mail_store_message_open g n p w1 = (fd, w2)"
      by (cases "mail_store_message_open g n p w1") auto
    show ?thesis
    proof (cases "fd < 0")
      case True
      with run pa Some op have "\<not> ok" "w' = w2"
        by (auto simp: mail_store_message_data_def Let_def)
      with True pa op Some p show ?thesis by auto
    next
      case False
      with run pa Some op have
        "mail_store_message_write fd p
           (header_image g \<lparr>magic1 = FMESSAGE_MAGIC_1 g, magic2 = FMESSAGE_MAGIC_2 g,
                             reserved = 0, flags = fl\<rparr>) d w2 = (ok, w')"
        by (auto simp: mail_store_message_data_def Let_def split: prod.splits if_splits)
      with False pa op Some p show ?thesis by auto
    qed
  qed
qed

lemma data_pathptr:
  assumes "mail_store_message_data g n fl d (Some old) w = ((ok, cell), w')"
  shows "(ok \<longrightarrow> cell = Some (Some (message_path g n None))) \<and> (\<not> ok \<longrightarrow> cell = Some None)"
  using assms
  by (auto simp: mail_store_message_data_def Let_def split: prod.splits if_splits option.splits
      dest: mail_message_path_effect(4))

lemma data_all_or_nothing:
  assumes run: "mail_store_message_data g n fl d pp w = ((ok, cell), w')"
      and p: "p = message_path g n None"
      and h: "h = header_image g \<lparr>magic1 = FMESSAGE_MAGIC_1 g, magic2 = FMESSAGE_MAGIC_2 g,
                                  reserved = 0, flags = fl\<rparr>"
  shows "(ok \<longrightarrow>
            files w' p = Some \<lparr>contents = h @ st_char_get d, synced = True\<rparr> \<and>
            (\<exists>fd cs. calls_since w w' =
               cs @ [Write fd (int (length h)), Write fd (int (st_length_get d)),
                     Fsync fd 0, Close fd 0])) \<and>
         (\<not> ok \<and> Open_create p None \<in> set (calls_since w w') \<longrightarrow>
            files w' p = None \<and> last (calls w') = Unlink p)"
proof -
  from data_cases [OF run] show ?thesis
  proof (elim disjE exE conjE)
    assume "\<not> ok" "calls_since w w' = [Message_path n None False]"
    then show ?thesis by simp
  next
    fix fd w1 w2
    assume no: "\<not> ok" and neg: "fd < 0"
      and pa: "mail_message_path g n None w = (Some (message_path g n None), w1)"
      and op: "mail_store_message_open g n (message_path g n None) w1 = (fd, w2)"
      and w': "w' = w2"
    have "calls_since w w2 = calls_since w w1 @ calls_since w1 w2"
      by (rule calls_since_trans [OF files_only_mail_message_path [OF pa]
            files_only_open_stage [OF op]])
    moreover have "calls_since w w1 = [Message_path n None True]"
      using mail_message_path_effect(1) [OF pa] by (simp add: calls_since_def)
    ultimately have "Open_create p None \<notin> set (calls_since w w')"
      using open_stage_shape [OF op] neg w' by auto
    with no show ?thesis by simp
  next
    fix fd w1 w2
    assume pos: "0 \<le> fd"
      and pa: "mail_message_path g n None w = (Some (message_path g n None), w1)"
      and op: "mail_store_message_open g n (message_path g n None) w1 = (fd, w2)"
      and wr: "mail_store_message_write fd (message_path g n None)
                 (header_image g \<lparr>magic1 = FMESSAGE_MAGIC_1 g, magic2 = FMESSAGE_MAGIC_2 g,
                                   reserved = 0, flags = fl\<rparr>) d w2 = (ok, w')"
    show ?thesis
    proof (cases ok)
      case False
      with write_stage_fail [of fd p h d w2 w'] wr p h show ?thesis by simp
    next
      case True
      have f1: "files_only w w2"
        by (rule files_only_trans [OF files_only_mail_message_path [OF pa]
              files_only_open_stage [OF op]])
      have "calls w' = calls w2 @ [Write fd (int (length h)), Write fd (int (st_length_get d)),
                                    Fsync fd 0, Close fd 0]"
        using write_stage_ok(2) [OF _ open_stage_ok [OF op pos]] wr True p h by simp
      with files_only_appendD [OF f1]
      have "calls w' = calls w @ (calls_since w w2 @
              [Write fd (int (length h)), Write fd (int (st_length_get d)), Fsync fd 0, Close fd 0])"
        by simp
      then have "calls_since w w' = calls_since w w2 @
              [Write fd (int (length h)), Write fd (int (st_length_get d)), Fsync fd 0, Close fd 0]"
        by (rule calls_since_append)
      moreover have "files w' p = Some \<lparr>contents = h @ st_char_get d, synced = True\<rparr>"
        using write_stage_ok(1) [OF _ open_stage_ok [OF op pos]] wr True p h by simp
      ultimately show ?thesis using True by blast
    qed
  qed
qed

lemma data_retry:
  assumes run: "mail_store_message_data g n fl d pp w = ((ok, cell), w')"
      and p: "p = message_path g n None"
      and a: "attempts = filter is_attempt (calls_since w w')"
  shows "(attempts = [] \<and> \<not> ok) \<or>
         attempts = [Open_create p None] \<or>
         (\<exists>e. attempts = [Open_create p (Some e), Create_directory n False] \<and> \<not> ok) \<or>
         (\<exists>e. attempts = [Open_create p (Some e), Create_directory n True, Open_create p None]) \<or>
         (\<exists>e e'. attempts = [Open_create p (Some e), Create_directory n True,
                              Open_create p (Some e')] \<and> \<not> ok)"
proof -
  from data_cases [OF run] show ?thesis
  proof (elim disjE exE conjE)
    assume "\<not> ok" "calls_since w w' = [Message_path n None False]"
    then show ?thesis using a by simp
  next
    fix fd w1 w2
    assume no: "\<not> ok" and neg: "fd < 0"
      and pa: "mail_message_path g n None w = (Some (message_path g n None), w1)"
      and op: "mail_store_message_open g n (message_path g n None) w1 = (fd, w2)"
      and w': "w' = w2"
    have "calls_since w w2 = calls_since w w1 @ calls_since w1 w2"
      by (rule calls_since_trans [OF files_only_mail_message_path [OF pa]
            files_only_open_stage [OF op]])
    moreover have "calls_since w w1 = [Message_path n None True]"
      using mail_message_path_effect(1) [OF pa] by (simp add: calls_since_def)
    ultimately show ?thesis
      using open_stage_shape [OF op] neg w' no a p by auto
  next
    fix fd w1 w2
    assume pos: "0 \<le> fd"
      and pa: "mail_message_path g n None w = (Some (message_path g n None), w1)"
      and op: "mail_store_message_open g n (message_path g n None) w1 = (fd, w2)"
      and wr: "mail_store_message_write fd (message_path g n None)
                 (header_image g \<lparr>magic1 = FMESSAGE_MAGIC_1 g, magic2 = FMESSAGE_MAGIC_2 g,
                                   reserved = 0, flags = fl\<rparr>) d w2 = (ok, w')"
    have f1: "files_only w w1" by (rule files_only_mail_message_path [OF pa])
    have f2: "files_only w1 w2" by (rule files_only_open_stage [OF op])
    have f3: "files_only w2 w'" by (rule files_only_write_stage [OF wr])
    have "calls_since w w' = calls_since w w1 @ calls_since w1 w2 @ calls_since w2 w'"
      using calls_since_trans [OF f1 files_only_trans [OF f2 f3]] calls_since_trans [OF f2 f3]
      by simp
    moreover have "calls_since w w1 = [Message_path n None True]"
      using mail_message_path_effect(1) [OF pa] by (simp add: calls_since_def)
    ultimately show ?thesis
      using open_stage_shape [OF op] pos write_stage_quiet [OF wr] a p by auto
  qed
qed

subsection \<open>Effects of the database calls, and the link\<close>


lemma open_read_effect:
  assumes "open_read p w = (fd, w')"
  shows "\<exists>r. calls w' = calls w @ [Open_read p r]"
  using assms
  by (auto simp: open_read_def next_outcome_def log_call_def Let_def
      split: list.splits if_splits)

lemma tran_start_effect:
  assumes "tran_start w = (t, w')"
  shows "calls w' = calls w @ [Tran_start t]" and "committed w' = committed w"
    and "files w' = files w" and "0 \<le> t \<Longrightarrow> transactions w' t = Some (committed w)"
  using assms
  by (auto simp: tran_start_def next_outcome_def log_call_def Let_def
      split: list.splits if_splits)

lemma tran_rollback_effect:
  "calls (tran_rollback t w) = calls w @ [Tran_rollback t]"
  "committed (tran_rollback t w) = committed w"
  "files (tran_rollback t w) = files w"
  "transactions (tran_rollback t w) t = None"
  by (simp_all add: tran_rollback_def log_call_def)

lemma tran_commit_effect:
  assumes "tran_commit t w = (r, w')"
  shows "calls w' = calls w @ [Tran_commit t r]" and "files w' = files w"
    and "r \<noteq> 0 \<Longrightarrow> committed w' = committed w"
    and "r = 0 \<or> r = - 1"
  using assms
  by (auto simp: tran_commit_def next_outcome_def log_call_def Let_def
      split: list.splits if_splits option.splits)

lemma insert_row_effect:
  assumes "insert_row c r t w = (num, w')"
  shows "committed w' = committed w" and "files w' = files w"
    and "num = 0 \<Longrightarrow> calls w' = calls w @ [c]" and "num \<noteq> 0 \<Longrightarrow> calls w' = calls w"
  using assms
  by (auto simp: insert_row_def next_outcome_def log_call_def Let_def
      split: list.splits if_splits option.splits)

lemma mail_db_insert_message_effect:
  assumes "mail_db_insert_message user folder status msize signum sigkey t w = (num, w')"
  shows "calls w' = calls w @ [Insert_message t num]" and "committed w' = committed w"
    and "files w' = files w"
  using assms
  by (auto simp: mail_db_insert_message_def Let_def log_call_def split: prod.splits if_splits
      dest: insert_row_effect)

lemma mail_db_insert_duplicate_message_effect:
  assumes "mail_db_insert_duplicate_message user folder status msize signum sigkey cr t w = (num, w')"
  shows "calls w' = calls w @ [Insert_duplicate t num]" and "committed w' = committed w"
    and "files w' = files w"
  using assms
  by (auto simp: mail_db_insert_duplicate_message_def Let_def log_call_def
      split: prod.splits if_splits dest: insert_row_effect)

lemma mail_db_update_message_folder_effect:
  assumes "mail_db_update_message_folder user num source target t w = (r, w')"
  shows "calls w' = calls w @ [Update_folder t num r]" and "committed w' = committed w"
    and "r = - 1 \<or> r = 0 \<or> r = 1"
    and "r = 1 \<Longrightarrow> \<exists>rows row. transactions w t = Some rows \<and> rows num = Some row \<and>
                       owner_id row = user \<and> folder_id row = source"
    and "transactions w t = Some rows \<Longrightarrow> r = 1 \<Longrightarrow>
           transactions w' t = Some (rows(num \<mapsto> (the (rows num))\<lparr>folder_id := target\<rparr>))"
  using assms
  by (auto simp: mail_db_update_message_folder_def next_outcome_def log_call_def Let_def
      split: list.splits if_splits option.splits)

lemma link_stage_shape:
  assumes "mail_copy_message_link g n a b w = (state, w')"
  shows "(calls_since w w' = [Link a b None] \<and> state = 0) \<or>
         (\<exists>e. calls_since w w' = [Link a b (Some e), Create_directory n False] \<and> state \<noteq> 0) \<or>
         (\<exists>e. calls_since w w' = [Link a b (Some e), Create_directory n True, Link a b None]
               \<and> state = 0) \<or>
         (\<exists>e e'. calls_since w w' = [Link a b (Some e), Create_directory n True,
                                      Link a b (Some e')] \<and> state \<noteq> 0)"
proof -
  obtain s1 w1 where o1: "link_path g a b w = (s1, w1)" by (cases "link_path g a b w") auto
  show ?thesis
  proof (cases "s1 = 0")
    case True
    with o1 assms have "state = s1" "w' = w1" by (auto simp: mail_copy_message_link_def)
    with link_path_ok [OF o1 True] True show ?thesis by (simp add: calls_since_def)
  next
    case False
    from link_path_fail(1) [OF o1 False] obtain e where
      c1: "calls w1 = calls w @ [Link a b (Some e)]" by blast
    obtain made w2 where m: "mail_create_directory g n None w1 = (made, w2)"
      by (cases "mail_create_directory g n None w1") auto
    have c2: "calls w2 = calls w @ [Link a b (Some e), Create_directory n made]"
      using mail_create_directory_effect(1) [OF m] c1 by simp
    show ?thesis
    proof (cases made)
      case False
      with o1 m \<open>s1 \<noteq> 0\<close> assms have "state = s1" "w' = w2"
        by (auto simp: mail_copy_message_link_def)
      with c2 False \<open>s1 \<noteq> 0\<close> show ?thesis by (simp add: calls_since_def)
    next
      case made: True
      with o1 m False assms have o2: "link_path g a b w2 = (state, w')"
        by (auto simp: mail_copy_message_link_def)
      show ?thesis
      proof (cases "state = 0")
        case False
        from link_path_fail(1) [OF o2 False] obtain e' where
          "calls w' = calls w2 @ [Link a b (Some e')]" by blast
        with c2 made False show ?thesis by (simp add: calls_since_def)
      next
        case True
        with link_path_ok [OF o2 True] c2 made show ?thesis by (simp add: calls_since_def)
      qed
    qed
  qed
qed

lemma copy_calls:
  assumes run: "mail_copy_message g user orig server msize folder status signum sigkey created w
                  = (res, w')"
  shows "(\<exists>cs. calls w' = calls w @ cs \<and> filter is_attempt cs = [] \<and> res = 0) \<or>
         (\<exists>pre post num w6 w7 state.
            calls w' = calls w @ pre @ calls_since w6 w7 @ post \<and>
            filter is_attempt pre = [] \<and> filter is_attempt post = [] \<and>
            mail_copy_message_link g num (message_path g orig server) (message_path g num None) w6
              = (state, w7) \<and>
            (state \<noteq> 0 \<longrightarrow> res = 0))"
proof -
  obtain r1 w1 where a1: "mail_message_path g orig server w = (r1, w1)"
    by (cases "mail_message_path g orig server w") auto
  note c1 = mail_message_path_effect(1) [OF a1]
  show ?thesis
  proof (cases r1)
    case None
    with run a1 c1 show ?thesis by (auto simp: mail_copy_message_def)
  next
    case (Some op)
    with mail_message_path_effect(4) [OF a1] have op: "op = message_path g orig server" by simp
    obtain fd w2 where a2: "open_read op w1 = (fd, w2)" by (cases "open_read op w1") auto
    from open_read_effect [OF a2] obtain rr where c2: "calls w2 = calls w1 @ [Open_read op rr]"
      by blast
    show ?thesis
    proof (cases "fd < 0")
      case True
      with run a1 Some a2 c1 c2 show ?thesis by (auto simp: mail_copy_message_def)
    next
      case fdok: False
      define w3 where "w3 = snd (close_fd fd w2)"
      have c3: "calls w3 = calls w2 @ [Close fd (fst (close_fd fd w2))]"
        by (simp add: w3_def close_fd_snd)
      obtain t w4 where a4: "tran_start w3 = (t, w4)" by (cases "tran_start w3") auto
      note c4 = tran_start_effect(1) [OF a4]
      show ?thesis
      proof (cases "t < 0")
        case True
        with run a1 Some a2 fdok a4 c1 c2 c3 c4 show ?thesis
          by (auto simp: mail_copy_message_def w3_def)
      next
        case tok: False
        obtain num w5 where a5:
          "mail_db_insert_duplicate_message user folder status msize signum sigkey created t w4
             = (num, w5)"
          by (cases "mail_db_insert_duplicate_message user folder status msize signum sigkey
                       created t w4") auto
        note c5 = mail_db_insert_duplicate_message_effect(1) [OF a5]
        show ?thesis
        proof (cases "num = 0")
          case True
          with run a1 Some a2 fdok a4 tok a5 c1 c2 c3 c4 c5 show ?thesis
            by (auto simp: mail_copy_message_def w3_def tran_rollback_effect)
        next
          case numok: False
          obtain r6 w6 where a6: "mail_message_path g num None w5 = (r6, w6)"
            by (cases "mail_message_path g num None w5") auto
          note c6 = mail_message_path_effect(1) [OF a6]
          show ?thesis
          proof (cases r6)
            case None
            with run a1 Some a2 fdok a4 tok a5 numok a6 c1 c2 c3 c4 c5 c6 show ?thesis
              by (auto simp: mail_copy_message_def w3_def tran_rollback_effect)
          next
            case cp: (Some cp)
            with mail_message_path_effect(4) [OF a6] have cpe: "cp = message_path g num None"
              by simp
            obtain state w7 where a7: "mail_copy_message_link g num op cp w6 = (state, w7)"
              by (cases "mail_copy_message_link g num op cp w6") auto
            have c7: "calls w7 = calls w6 @ calls_since w6 w7"
              by (rule files_only_appendD [OF files_only_link_stage [OF a7]])
            have pre: "calls w6 = calls w @ [Message_path orig server True, Open_read op rr,
                         Close fd (fst (close_fd fd w2)), Tran_start t, Insert_duplicate t num,
                         Message_path num None True]"
              using c1 c2 c3 c4 c5 c6 Some cp by simp
            show ?thesis
            proof (cases "state = 0")
              case False
              with run a1 Some a2 fdok a4 tok a5 numok a6 cp a7
              have "res = 0" "w' = tran_rollback t w7"
                by (auto simp: mail_copy_message_def w3_def)
              then have "calls w' = calls w @ [Message_path orig server True, Open_read op rr,
                         Close fd (fst (close_fd fd w2)), Tran_start t, Insert_duplicate t num,
                         Message_path num None True] @ calls_since w6 w7 @ [Tran_rollback t]"
                using pre c7 by (simp add: tran_rollback_effect)
              with \<open>res = 0\<close> a7 op cpe show ?thesis
                by (intro disjI2 exI conjI) (assumption | simp)+
            next
              case True
              obtain ret w8 where a8: "tran_commit t w7 = (ret, w8)"
                by (cases "tran_commit t w7") auto
              from run a1 Some a2 fdok a4 tok a5 numok a6 cp a7 True a8
              have "w' = w8" by (auto simp: mail_copy_message_def w3_def split: if_splits)
              then have "calls w' = calls w @ [Message_path orig server True, Open_read op rr,
                         Close fd (fst (close_fd fd w2)), Tran_start t, Insert_duplicate t num,
                         Message_path num None True] @ calls_since w6 w7 @ [Tran_commit t ret]"
                using pre c7 tran_commit_effect(1) [OF a8] by simp
              with True a7 op cpe show ?thesis
                by (intro disjI2 exI conjI) (assumption | simp)+
            qed
          qed
        qed
      qed
    qed
  qed
qed

lemma copy_retry:
  assumes run: "mail_copy_message g user orig server msize folder status signum sigkey created w
                  = (res, w')"
      and a: "attempts = filter is_attempt (calls_since w w')"
      and o: "old = message_path g orig server"
  shows "(attempts = [] \<and> res = 0) \<or>
         (\<exists>num. attempts = [Link old (message_path g num None) None]) \<or>
         (\<exists>num e. attempts = [Link old (message_path g num None) (Some e),
                               Create_directory num False] \<and> res = 0) \<or>
         (\<exists>num e. attempts = [Link old (message_path g num None) (Some e),
                               Create_directory num True,
                               Link old (message_path g num None) None]) \<or>
         (\<exists>num e e'. attempts = [Link old (message_path g num None) (Some e),
                                  Create_directory num True,
                                  Link old (message_path g num None) (Some e')] \<and> res = 0)"
proof -
  from copy_calls [OF run] show ?thesis
  proof (elim disjE exE conjE)
    fix cs assume "calls w' = calls w @ cs" "filter is_attempt cs = []" "res = 0"
    then show ?thesis using a by (simp add: calls_since_def)
  next
    fix pre post num w6 w7 state
    assume c: "calls w' = calls w @ pre @ calls_since w6 w7 @ post"
      and q: "filter is_attempt pre = []" "filter is_attempt post = []"
      and l: "mail_copy_message_link g num (message_path g orig server) (message_path g num None) w6
                = (state, w7)"
      and f: "state \<noteq> 0 \<longrightarrow> res = 0"
    have "attempts = filter is_attempt (calls_since w6 w7)"
      using a c q by (simp add: calls_since_def)
    with link_stage_shape [OF l] f o show ?thesis
      by (elim disjE exE conjE) (simp_all, blast+)
  qed
qed

subsection \<open>Store and move\<close>


lemma store_blob_failure:
  assumes payload: "mail_store_message_payload g signet status message = Some (payload, fl, status')"
      and start: "tran_start w = (t, w1)" and t: "0 \<le> t"
      and ins: "mail_db_insert_message user folder status' (of_nat (st_length_get message))
                  signum sigkey t w1 = (num, w2)" and num: "num \<noteq> 0"
      and blob: "mail_store_message_data g num fl (Some payload) (Some None) w2
                   = ((False, cell), w3)"
      and run: "mail_store_message g user signet folder status signum sigkey message w = (res, w')"
  shows "res = (0, status')" and "w' = tran_rollback t w3"
    and "committed w' = committed w" and "transactions w' t = None"
    and "calls_since w w' =
           [Tran_start t, Insert_message t num] @ calls_since w2 w3 @ [Tran_rollback t]"
    and "filter is_db (calls_since w2 w3) = []"
    and "Open_create (message_path g num None) None \<in> set (calls_since w2 w3) \<longrightarrow>
           files w' (message_path g num None) = None"
proof -
  have cell: "cell = Some None" using data_pathptr [OF blob] by simp
  have "\<not> t < 0" using t by simp
  with run payload start ins num blob cell
  show res: "res = (0, status')" and w': "w' = tran_rollback t w3"
    by (simp_all add: mail_store_message_def Let_def)
  have fo: "files_only w2 w3" by (rule files_only_data [OF blob])
  show "committed w' = committed w"
    using w' fo tran_start_effect(2) [OF start] mail_db_insert_message_effect(2) [OF ins]
    by (simp add: tran_rollback_effect files_only_def)
  show "transactions w' t = None" using w' by (simp add: tran_rollback_effect)
  have "calls w' = calls w @ ([Tran_start t, Insert_message t num] @ calls_since w2 w3 @
                              [Tran_rollback t])"
    using w' files_only_appendD [OF fo] tran_start_effect(1) [OF start]
      mail_db_insert_message_effect(1) [OF ins]
    by (simp add: tran_rollback_effect)
  then show "calls_since w w' =
           [Tran_start t, Insert_message t num] @ calls_since w2 w3 @ [Tran_rollback t]"
    by (rule calls_since_append)
  show "filter is_db (calls_since w2 w3) = []" using fo by (simp add: files_only_def)
  show "Open_create (message_path g num None) None \<in> set (calls_since w2 w3) \<longrightarrow>
           files w' (message_path g num None) = None"
    using data_all_or_nothing [OF blob refl refl] w' by (simp add: tran_rollback_effect)
qed

text \<open>
  C2. In \<open>mail_store_message\<close>, when the payload was prepared, the transaction was
  opened, the row was inserted (a non-zero message number) and \<open>mail_store_message_data\<close>
  then returns false, the function returns 0; the committed rows are what they were before
  the call and the transaction is closed, so the inserted row is not visible; the database
  calls of the whole operation are the start, the insert and the rollback, with no commit;
  and if the message file was created during the operation it no longer exists.
\<close>

theorem mail_store_message_blob_failure:
  assumes "mail_store_message_payload g signet status message = Some (payload, fl, status')"
      and "tran_start w = (t, w1)" and "0 \<le> t"
      and "mail_db_insert_message user folder status' (of_nat (st_length_get message))
             signum sigkey t w1 = (num, w2)" and "num \<noteq> 0"
      and "mail_store_message_data g num fl (Some payload) (Some None) w2 = ((False, cell), w3)"
      and "mail_store_message g user signet folder status signum sigkey message w = (res, w')"
  shows "fst res = 0 \<and> committed w' = committed w \<and> transactions w' t = None \<and>
         filter is_db (calls_since w w') = [Tran_start t, Insert_message t num, Tran_rollback t] \<and>
         (Open_create (message_path g num None) None \<in> set (calls_since w w') \<longrightarrow>
            files w' (message_path g num None) = None)"
  using store_blob_failure [OF assms] by simp

lemma move_cases:
  assumes start: "tran_start w = (t, w1)" and t: "0 \<le> t"
      and upd: "mail_db_update_message_folder user num source target t w1 = (r, w2)"
      and run: "mail_move_message user num source target w = (res, w')"
  shows "r \<noteq> 1 \<Longrightarrow> res = r \<and> w' = tran_rollback t w2"
    and "r = 1 \<Longrightarrow> w' = snd (tran_commit t w2) \<and>
           res = (if fst (tran_commit t w2) \<noteq> 0 then - 1 else 1)"
  using assms
  by (auto simp: mail_move_message_def Let_def split: prod.splits if_splits)

lemma move_not_moved:
  assumes start: "tran_start w = (t, w1)" and t: "0 \<le> t"
      and upd: "mail_db_update_message_folder user num source target t w1 = (r, w2)"
      and run: "mail_move_message user num source target w = (res, w')"
      and r: "r \<noteq> 1"
  shows "res = r" and "committed w' = committed w" and "transactions w' t = None"
    and "calls_since w w' = [Tran_start t, Update_folder t num r, Tran_rollback t]"
proof -
  from move_cases(1) [OF start t upd run r] have w': "w' = tran_rollback t w2" by simp
  from move_cases(1) [OF start t upd run r] show "res = r" by simp
  show "committed w' = committed w"
    using w' tran_start_effect(2) [OF start] mail_db_update_message_folder_effect(2) [OF upd]
    by (simp add: tran_rollback_effect)
  show "transactions w' t = None" using w' by (simp add: tran_rollback_effect)
  have "calls w' = calls w @ [Tran_start t, Update_folder t num r, Tran_rollback t]"
    using w' tran_start_effect(1) [OF start] mail_db_update_message_folder_effect(1) [OF upd]
    by (simp add: tran_rollback_effect)
  then show "calls_since w w' = [Tran_start t, Update_folder t num r, Tran_rollback t]"
    by (rule calls_since_append)
qed

lemma move_mismatch:
  assumes start: "tran_start w = (t, w1)" and t: "0 \<le> t"
      and upd: "mail_db_update_message_folder user num source target t w1 = (r, w2)"
      and row: "committed w num = Some row" and f: "folder_id row \<noteq> source"
  shows "r = 0 \<or> r = - 1"
proof -
  have "transactions w1 t = Some (committed w)" by (rule tran_start_effect(4) [OF start t])
  with mail_db_update_message_folder_effect(4) [OF upd] row f have "r \<noteq> 1" by auto
  with mail_db_update_message_folder_effect(3) [OF upd] show ?thesis by auto
qed

text \<open>
  C8, amended. In \<open>mail_move_message\<close>, once the transaction is open, a result of the
  folder update other than 1 rolls the transaction back, leaves the committed rows (and so
  the folder of the row) unchanged, and is returned as it is: 0 when no row matched, as
  when the source folder is not the folder of the message, and -1 when the update failed.
  The function returns 1 exactly when the update changed one row and the commit succeeded.
\<close>

theorem mail_move_message_result:
  assumes start: "tran_start w = (t, w1)" and t: "0 \<le> t"
      and upd: "mail_db_update_message_folder user num source target t w1 = (r, w2)"
      and run: "mail_move_message user num source target w = (res, w')"
  shows "(r \<noteq> 1 \<longrightarrow>
            res = r \<and> committed w' = committed w \<and> transactions w' t = None \<and>
            calls_since w w' = [Tran_start t, Update_folder t num r, Tran_rollback t]) \<and>
         (committed w num = Some row \<and> folder_id row \<noteq> source \<and> r \<noteq> - 1 \<longrightarrow> res = 0) \<and>
         (res = 1 \<longleftrightarrow> r = 1 \<and> fst (tran_commit t w2) = 0)"
proof -
  have a: "res = r \<and> committed w' = committed w \<and> transactions w' t = None \<and>
        calls_since w w' = [Tran_start t, Update_folder t num r, Tran_rollback t]" if r: "r \<noteq> 1"
    using move_not_moved [OF start t upd run r] by simp
  have b: "res = 0"
    if h: "committed w num = Some row \<and> folder_id row \<noteq> source \<and> r \<noteq> - 1"
  proof -
    from h move_mismatch [OF start t upd, of row] have r: "r = 0" by auto
    then have "r \<noteq> 1" by simp
    from move_not_moved(1) [OF start t upd run this] r show "res = 0" by simp
  qed
  have c: "res = 1 \<longleftrightarrow> r = 1 \<and> fst (tran_commit t w2) = 0"
  proof (cases "r = 1")
    case True
    from move_cases(2) [OF start t upd run True] True show ?thesis by auto
  next
    case False
    from move_not_moved(1) [OF start t upd run False] False show ?thesis by simp
  qed
  from a b c show ?thesis by blast
qed


subsection \<open>Concrete runs\<close>

lemmas run_defs = mail_store_message_data_def mail_message_path_def next_outcome_def
  log_call_def mail_store_message_open_def open_create_def mail_create_directory_def
  mail_store_message_write_def write_fd_def append_file_def fsync_fd_def close_fd_def
  unlink_path_def example_magma_def example_world_def Let_def st_char_get_def
  st_length_get_def example_path_def example_header_def calls_since_def
  tran_start_def tran_rollback_def tran_commit_def insert_row_def mail_db_insert_message_def
  mail_db_insert_duplicate_message_def mail_db_update_message_folder_def
  mail_store_message_def mail_store_message_payload_def mail_copy_message_def
  mail_copy_message_link_def link_path_def open_read_def mail_move_message_def stored_world_def

lemma char_of_AB: "char_of (65 :: nat) = CHR ''A''" "char_of (66 :: nat) = CHR ''B''"
  by code_simp+

lemmas run_simps = run_defs char_of_AB

lemma example_path_eq: "example_path = message_path example_magma 65 None"
  by (simp add: run_simps)

lemma example_header_eq:
  "example_header = header_image example_magma
     \<lparr>magic1 = FMESSAGE_MAGIC_1 example_magma, magic2 = FMESSAGE_MAGIC_2 example_magma,
      reserved = 0, flags = 1\<rparr>"
  by (simp add: run_simps)

lemma store_data_ok_fst: "fst store_data_ok = (True, Some (Some example_path))"
  by (simp add: store_data_ok_def run_simps)

lemma store_data_ok_run:
  "mail_store_message_data example_magma 65 1 (Some ''body'') (Some (Some ''stale''))
     example_world = ((True, Some (Some example_path)), snd store_data_ok)"
  using store_data_ok_fst by (simp add: store_data_ok_def prod_eq_iff)

lemma store_data_short_fst: "fst store_data_short = (False, Some None)"
  by (simp add: store_data_short_def run_simps)

lemma store_data_short_run:
  "mail_store_message_data example_magma 65 1 (Some ''body'') (Some (Some ''stale''))
     (example_world\<lparr>script := [Succeed, Succeed, Partial 2]\<rparr>)
   = ((False, Some None), snd store_data_short)"
  using store_data_short_fst by (simp add: store_data_short_def prod_eq_iff)

lemma store_data_short_calls:
  "calls_since (example_world\<lparr>script := [Succeed, Succeed, Partial 2]\<rparr>) (snd store_data_short)
     = [Message_path 65 None True, Open_create example_path None, Write 3 2, Close 3 0,
        Unlink example_path]"
  by (simp add: store_data_short_def run_simps)


subsection \<open>The path returned by the blob write\<close>

text \<open>
  C10. When \<open>mail_store_message_data\<close> is called with a non-NULL \<open>pathptr\<close>, whatever
  the cell held before, the cell holds the computed path when the function returns true
  and NULL when it returns false.
\<close>

theorem mail_store_message_data_pathptr:
  assumes "mail_store_message_data g n fl d (Some old) w = ((ok, cell), w')"
  shows "(ok \<longrightarrow> cell = Some (Some (message_path g n None))) \<and> (\<not> ok \<longrightarrow> cell = Some None)"
  using data_pathptr [OF assms] .

theorem mail_store_message_data_pathptr_witness:
  "fst store_data_ok = (True, Some (Some ''/store/a.A'')) \<and>
   fst store_data_short = (False, Some None)"
  using mail_store_message_data_pathptr [OF store_data_ok_run]
    mail_store_message_data_pathptr [OF store_data_short_run]
    store_data_ok_fst store_data_short_fst
  by (simp add: example_path_def)


subsection \<open>All or nothing in the blob write\<close>

text \<open>
  C3. For every call of \<open>mail_store_message_data\<close>: when it returns true, the file at
  the computed path consists of the header image followed by the payload and is flushed,
  and the last four calls are the write of the header, the write of the payload, a
  successful \<open>fsync\<close> and a successful \<open>close\<close>; when it returns false after an open of
  the file succeeded, the file at that path no longer exists and the last call is the
  \<open>unlink\<close> of that path.
\<close>

theorem mail_store_message_data_all_or_nothing:
  assumes "mail_store_message_data g n fl d pp w = ((ok, cell), w')"
      and "p = message_path g n None"
      and "h = header_image g \<lparr>magic1 = FMESSAGE_MAGIC_1 g, magic2 = FMESSAGE_MAGIC_2 g,
                                reserved = 0, flags = fl\<rparr>"
  shows "(ok \<longrightarrow>
            files w' p = Some \<lparr>contents = h @ st_char_get d, synced = True\<rparr> \<and>
            (\<exists>fd cs. calls_since w w' =
               cs @ [Write fd (int (length h)), Write fd (int (st_length_get d)),
                     Fsync fd 0, Close fd 0])) \<and>
         (\<not> ok \<and> Open_create p None \<in> set (calls_since w w') \<longrightarrow>
            files w' p = None \<and> last (calls w') = Unlink p)"
  using data_all_or_nothing [OF assms] .

theorem mail_store_message_data_all_or_nothing_witness:
  "files (snd store_data_ok) example_path
     = Some \<lparr>contents = example_header @ ''body'', synced = True\<rparr> \<and>
   Open_create example_path None \<in>
     set (calls_since (example_world\<lparr>script := [Succeed, Succeed, Partial 2]\<rparr>)
            (snd store_data_short)) \<and>
   files (snd store_data_short) example_path = None \<and>
   last (calls (snd store_data_short)) = Unlink example_path"
  using mail_store_message_data_all_or_nothing
          [OF store_data_ok_run example_path_eq example_header_eq]
    mail_store_message_data_all_or_nothing
          [OF store_data_short_run example_path_eq example_header_eq]
    store_data_short_calls
  by (simp add: st_char_get_def)


subsection \<open>The retry after creating the directory\<close>

text \<open>
  C4, as the specification states it, fails: the second open is not reserved for an open
  that failed because the directory is missing. In the run below the directory of the
  path exists, the first open fails for another reason, the directory creation reports
  success, and the open is attempted a second time (and succeeds).
\<close>

theorem mail_store_message_data_retry_counterexample:
  "directory_of example_magma example_path
     \<in> directories (example_world\<lparr>script := [Succeed, Fail]\<rparr>) \<and>
   filter is_attempt (calls (snd store_data_retry)) =
     [Open_create example_path (Some EOTHER), Create_directory 65 True,
      Open_create example_path None] \<and>
   fst (fst store_data_retry)"
  by (simp add: store_data_retry_def run_simps)

text \<open>
  C4, amended. In \<open>mail_store_message_data\<close> the calls that open the file or create its
  directory are one of: none (the path could not be built); one successful open; a failed
  open, whatever its cause, followed by one directory creation that fails, after which the
  function returns false; a failed open, one successful directory creation and one second
  open, after whose failure the function returns false. There is never a third open nor a
  second directory creation. The calls that create the link or its directory in
  \<open>mail_copy_message\<close> follow the same pattern, with result 0 after a failed directory
  creation or a failed second link.
\<close>

theorem mail_retry_once:
  assumes "mail_store_message_data g n fl d pp w = ((ok, cell), w')"
      and "opens = filter is_attempt (calls_since w w')"
      and "p = message_path g n None"
      and "mail_copy_message g user orig server msize folder status signum sigkey created v
             = (res, v')"
      and "links = filter is_attempt (calls_since v v')"
      and "old = message_path g orig server"
  shows "((opens = [] \<and> \<not> ok) \<or>
          opens = [Open_create p None] \<or>
          (\<exists>e. opens = [Open_create p (Some e), Create_directory n False] \<and> \<not> ok) \<or>
          (\<exists>e. opens = [Open_create p (Some e), Create_directory n True, Open_create p None]) \<or>
          (\<exists>e e'. opens = [Open_create p (Some e), Create_directory n True,
                            Open_create p (Some e')] \<and> \<not> ok)) \<and>
         ((links = [] \<and> res = 0) \<or>
          (\<exists>num. links = [Link old (message_path g num None) None]) \<or>
          (\<exists>num e. links = [Link old (message_path g num None) (Some e),
                             Create_directory num False] \<and> res = 0) \<or>
          (\<exists>num e. links = [Link old (message_path g num None) (Some e),
                             Create_directory num True,
                             Link old (message_path g num None) None]) \<or>
          (\<exists>num e e'. links = [Link old (message_path g num None) (Some e),
                                Create_directory num True,
                                Link old (message_path g num None) (Some e')] \<and> res = 0))"
  using data_retry [OF assms(1) assms(3) assms(2)] copy_retry [OF assms(4) assms(5) assms(6)]
  by (rule conjI)

theorem mail_retry_once_witness:
  "filter is_attempt (calls (snd store_data_retry)) =
     [Open_create example_path (Some EOTHER), Create_directory 65 True,
      Open_create example_path None] \<and>
   filter is_attempt (calls (snd copy_retry_run)) =
     [Link example_path ''/store/a.B'' (Some EOTHER), Create_directory 66 True,
      Link example_path ''/store/a.B'' None] \<and>
   fst copy_retry_run = 66"
proof -
  have d: "mail_store_message_data example_magma 65 1 (Some ''body'') None
             (example_world\<lparr>script := [Succeed, Fail]\<rparr>)
           = ((fst (fst store_data_retry), snd (fst store_data_retry)), snd store_data_retry)"
    by (simp add: store_data_retry_def)
  have c: "mail_copy_message example_magma 7 65 None 5 2 0 0 0 0
             (stored_world\<lparr>script := [Succeed, Succeed, Succeed, Succeed, Succeed, Succeed,
                                       Fail]\<rparr>)
           = (fst copy_retry_run, snd copy_retry_run)"
    by (simp add: copy_retry_run_def)
  have o: "filter is_attempt (calls (snd store_data_retry)) =
             [Open_create example_path (Some EOTHER), Create_directory 65 True,
              Open_create example_path None]"
    by (simp add: store_data_retry_def run_simps)
  have l: "filter is_attempt (calls (snd copy_retry_run)) =
             [Link example_path ''/store/a.B'' (Some EOTHER), Create_directory 66 True,
              Link example_path ''/store/a.B'' None] \<and> fst copy_retry_run = 66"
    by (simp add: copy_retry_run_def run_simps)
  from mail_retry_once [OF d refl refl c refl refl] o l show ?thesis by simp
qed


subsection \<open>A failed blob write in mail_store_message\<close>

theorem mail_store_message_blob_failure_witness:
  "fst (fst blob_failure_run) = 0 \<and>
   committed (snd blob_failure_run) = committed blob_failure_world \<and>
   transactions (snd blob_failure_run) 3 = None \<and>
   filter is_db (calls_since blob_failure_world (snd blob_failure_run)) =
     [Tran_start 3, Insert_message 3 65, Tran_rollback 3] \<and>
   Open_create example_path None \<in> set (calls_since blob_failure_world (snd blob_failure_run)) \<and>
   files (snd blob_failure_run) example_path = None"
proof -
  define w1 where "w1 = snd (tran_start blob_failure_world)"
  define w2 where "w2 = snd (mail_db_insert_message 7 2 0 (of_nat (st_length_get (Some ''hello'')))
                               0 0 3 w1)"
  define w3 where "w3 = snd (mail_store_message_data example_magma 65 1 (Some ''hello'')
                               (Some None) w2)"
  have pay: "mail_store_message_payload example_magma None 0 (Some ''hello'')
               = Some (''hello'', 1, 0)"
    by (simp add: run_simps)
  have "fst (tran_start blob_failure_world) = 3"
    by (simp add: blob_failure_world_def run_simps)
  then have start: "tran_start blob_failure_world = (3, w1)"
    by (simp add: w1_def prod_eq_iff)
  have "fst (mail_db_insert_message 7 2 0 (of_nat (st_length_get (Some ''hello''))) 0 0 3 w1) = 65"
    by (simp add: w1_def blob_failure_world_def run_simps)
  then have ins: "mail_db_insert_message 7 2 0 (of_nat (st_length_get (Some ''hello''))) 0 0 3 w1
                    = (65, w2)"
    by (simp add: w2_def prod_eq_iff)
  have "fst (mail_store_message_data example_magma 65 1 (Some ''hello'') (Some None) w2)
          = (False, Some None)"
    by (simp add: w2_def w1_def blob_failure_world_def run_simps)
  then have blob: "mail_store_message_data example_magma 65 1 (Some ''hello'') (Some None) w2
                     = ((False, Some None), w3)"
    by (simp add: w3_def prod_eq_iff)
  have run: "mail_store_message example_magma 7 None 2 0 0 0 (Some ''hello'') blob_failure_world
               = (fst blob_failure_run, snd blob_failure_run)"
    by (simp add: blob_failure_run_def)
  have op: "Open_create example_path None
              \<in> set (calls_since blob_failure_world (snd blob_failure_run))"
    by (simp add: blob_failure_run_def blob_failure_world_def run_simps)
  have "(65 :: 64 word) \<noteq> 0" and "(0 :: int) \<le> 3" by simp_all
  from mail_store_message_blob_failure [OF pay start this(2) ins this(1) blob run] op
  show ?thesis by (simp add: example_path_eq [symmetric])
qed


subsection \<open>The result of a move that changes no row\<close>

text \<open>
  C8, as the specification states it, fails: a folder update whose result is not 1 does not
  always make \<open>mail_move_message\<close> return 0. In the run below the transaction starts, the
  update fails and reports -1, and the function returns -1.
\<close>

theorem mail_move_message_zero_counterexample:
  "fst (tran_start move_error_world) = 3 \<and>
   fst (mail_db_update_message_folder 7 65 2 9 3 (snd (tran_start move_error_world))) \<noteq> 1 \<and>
   fst (mail_move_message 7 65 2 9 move_error_world) = - 1 \<and>
   fst (mail_move_message 7 65 2 9 move_error_world) \<noteq> 0"
  by (simp add: move_error_world_def run_simps)

theorem mail_move_message_result_witness:
  "fst (mail_move_message 7 65 5 9 stored_world) = 0 \<and>
   committed (snd (mail_move_message 7 65 5 9 stored_world)) = committed stored_world \<and>
   calls_since stored_world (snd (mail_move_message 7 65 5 9 stored_world)) =
     [Tran_start 3, Update_folder 3 65 0, Tran_rollback 3] \<and>
   fst (mail_move_message 7 65 2 9 stored_world) = 1"
proof -
  define w1 where "w1 = snd (tran_start stored_world)"
  have "fst (tran_start stored_world) = 3" by (simp add: run_simps)
  then have start: "tran_start stored_world = (3, w1)" by (simp add: w1_def prod_eq_iff)
  have "fst (mail_db_update_message_folder 7 65 5 9 3 w1) = 0" by (simp add: w1_def run_simps)
  then have miss: "mail_db_update_message_folder 7 65 5 9 3 w1
                     = (0, snd (mail_db_update_message_folder 7 65 5 9 3 w1))"
    by (simp add: prod_eq_iff)
  have "fst (mail_db_update_message_folder 7 65 2 9 3 w1) = 1" by (simp add: w1_def run_simps)
  then have hit: "mail_db_update_message_folder 7 65 2 9 3 w1
                    = (1, snd (mail_db_update_message_folder 7 65 2 9 3 w1))"
    by (simp add: prod_eq_iff)
  have commit: "fst (tran_commit 3 (snd (mail_db_update_message_folder 7 65 2 9 3 w1))) = 0"
    by (simp add: w1_def run_simps)
  have r1: "mail_move_message 7 65 5 9 stored_world
              = (fst (mail_move_message 7 65 5 9 stored_world),
                 snd (mail_move_message 7 65 5 9 stored_world))"
    and r2: "mail_move_message 7 65 2 9 stored_world
              = (fst (mail_move_message 7 65 2 9 stored_world),
                 snd (mail_move_message 7 65 2 9 stored_world))"
    by simp_all
  have t: "(0 :: int) \<le> 3" by simp
  from mail_move_message_result [OF start t miss r1] mail_move_message_result [OF start t hit r2]
    commit
  show ?thesis by simp
qed

end
